theory Spec2Isabelle
  imports Main "HOL-Library.Word"
begin

section \<open>The email output plugin\<close>

text \<open>
  The plugin forwards every record of its input channel as an email. Everything the Go
  code does to the outside (DNS lookups, SMTP conversations, the process-wide MX cache
  and its mutex) is made explicit here: the answers of the outside are oracles, and the
  effects are collected in a \<open>world\<close> value that every operation takes and returns.
\<close>

subsection \<open>Data\<close>

text \<open>A \<open>time.Duration\<close> is a 64-bit count of nanoseconds.\<close>

type_synonym duration = "64 word"

definition Second :: duration where
  "Second = 1000000000"

definition DefaultTimeout :: duration where
  "DefaultTimeout = 30 * Second"

text \<open>One \<open>*net.MX\<close> record: the host name and its preference.\<close>

record mx =
  Host :: string
  Pref :: "16 word"

text \<open>
  Go's \<open>error\<close> values. \<open>Fail\<close> is an error handed back by \<open>net\<close>, \<open>net/smtp\<close> or the
  resolver; the other constructors are the three \<open>fmt.Errorf\<close> wrappers of the file with
  the values they format (the last error of the start-up test may be \<open>nil\<close>).
\<close>

datatype err =
    Fail string
  | LookupError string err
  | TestSendError string "string list" "mx list" "err option"
  | SendError string "string list" "mx list" err
  | RunError err

text \<open>\<open>smtp.PlainAuth(identity, username, password, host)\<close> and \<open>*tls.Config\<close>.\<close>

datatype auth = PlainAuth string string string string

record tlsConfig =
  InsecureSkipVerify :: bool

record EmailOutput =
  From :: string
  To :: "string list"
  hostport :: string
  auth :: "auth option"
  byHost :: "string \<rightharpoonup> string list"
  tlsConfig :: "tlsConfig option"

subsection \<open>One transport session: func sendMail\<close>

text \<open>
  The peer of a session answers each protocol step with \<open>nil\<close> (\<open>None\<close>) or an error.
  \<open>srv_ext_starttls\<close> and \<open>srv_ext_auth\<close> are what \<open>c.Extension\<close> reports at the moment
  the code asks.
\<close>

record server =
  srv_dial :: "string \<Rightarrow> duration \<Rightarrow> err option"
  srv_newClient :: "err option"
  srv_hello :: "string \<Rightarrow> err option"
  srv_ext_starttls :: bool
  srv_startTLS :: "tlsConfig option \<Rightarrow> err option"
  srv_ext_auth :: bool
  srv_auth :: "auth \<Rightarrow> err option"
  srv_mail :: "string \<Rightarrow> err option"
  srv_rcpt :: "string \<Rightarrow> err option"
  srv_data :: "err option"
  srv_write :: "string \<Rightarrow> err option"
  srv_close :: "err option"
  srv_quit :: "err option"

text \<open>The protocol steps a session performs, in the order it performs them.\<close>

datatype step =
    Dial string duration
  | NewClient
  | Hello string
  | StartTLS "tlsConfig option"
  | Auth auth
  | Mail string
  | Rcpt string
  | Data
  | Write string
  | Close
  | Quit

text \<open>
  The function is a chain of steps with an early return after each; the model follows it
  phase by phase, from the last one backwards. Every phase takes the steps done so far
  and returns the session's result with all steps done.
\<close>

definition quit_phase :: "server \<Rightarrow> step list \<Rightarrow> err option \<times> step list" where
  "quit_phase srv tr = (srv_quit srv, tr @ [Quit])"

definition data_phase :: "server \<Rightarrow> string option \<Rightarrow> step list \<Rightarrow> err option \<times> step list" where
  "data_phase srv msg tr =
     (case msg of
        None \<Rightarrow> quit_phase srv tr
      | Some m \<Rightarrow>
          (case srv_data srv of
             Some e \<Rightarrow> (Some e, tr @ [Data])
           | None \<Rightarrow>
               (case srv_write srv m of
                  Some e \<Rightarrow> (Some e, tr @ [Data, Write m])
                | None \<Rightarrow>
                    (case srv_close srv of
                       Some e \<Rightarrow> (Some e, tr @ [Data, Write m, Close])
                     | None \<Rightarrow> quit_phase srv (tr @ [Data, Write m, Close])))))"

fun rcpt_phase :: "server \<Rightarrow> string list \<Rightarrow> string option \<Rightarrow> step list \<Rightarrow> err option \<times> step list" where
  "rcpt_phase srv [] msg tr = data_phase srv msg tr"
| "rcpt_phase srv (r # rs) msg tr =
     (case srv_rcpt srv r of
        Some e \<Rightarrow> (Some e, tr @ [Rcpt r])
      | None \<Rightarrow> rcpt_phase srv rs msg (tr @ [Rcpt r]))"

definition mail_phase :: "server \<Rightarrow> string \<Rightarrow> string list \<Rightarrow> string option \<Rightarrow> step list \<Rightarrow> err option \<times> step list" where
  "mail_phase srv frm tos msg tr =
     (case srv_mail srv frm of
        Some e \<Rightarrow> (Some e, tr @ [Mail frm])
      | None \<Rightarrow> rcpt_phase srv tos msg (tr @ [Mail frm]))"

definition auth_phase :: "server \<Rightarrow> auth option \<Rightarrow> string \<Rightarrow> string list \<Rightarrow> string option \<Rightarrow> step list \<Rightarrow> err option \<times> step list" where
  "auth_phase srv a frm tos msg tr =
     (case a of
        None \<Rightarrow> mail_phase srv frm tos msg tr
      | Some au \<Rightarrow>
          (if srv_ext_auth srv then
             (case srv_auth srv au of
                Some e \<Rightarrow> (Some e, tr @ [Auth au])
              | None \<Rightarrow> mail_phase srv frm tos msg (tr @ [Auth au]))
           else mail_phase srv frm tos msg tr))"

definition tls_phase :: "server \<Rightarrow> auth option \<Rightarrow> string \<Rightarrow> string list \<Rightarrow> string option \<Rightarrow> tlsConfig option \<Rightarrow> step list \<Rightarrow> err option \<times> step list" where
  "tls_phase srv a frm tos msg tlsc tr =
     (if srv_ext_starttls srv then
        (case srv_startTLS srv tlsc of
           Some e \<Rightarrow> (Some e, tr @ [StartTLS tlsc])
         | None \<Rightarrow> auth_phase srv a frm tos msg (tr @ [StartTLS tlsc]))
      else auth_phase srv a frm tos msg tr)"

definition sendMail :: "server \<Rightarrow> string \<Rightarrow> auth option \<Rightarrow> string \<Rightarrow> string list \<Rightarrow> string option \<Rightarrow> duration \<Rightarrow> tlsConfig option \<Rightarrow> err option \<times> step list" where
  "sendMail srv addr a frm tos msg timeout tlsc =
     (case srv_dial srv addr timeout of
        Some e \<Rightarrow> (Some e, [Dial addr timeout])
      | None \<Rightarrow>
          (case srv_newClient srv of
             Some e \<Rightarrow> (Some e, [Dial addr timeout, NewClient])
           | None \<Rightarrow>
               (case srv_hello srv ''localhost'' of
                  Some e \<Rightarrow> (Some e, [Dial addr timeout, NewClient, Hello ''localhost''])
                | None \<Rightarrow>
                    tls_phase srv a frm tos msg tlsc
                      [Dial addr timeout, NewClient, Hello ''localhost''])))"

text \<open>
  What a peer has to do for a session to get through a given part: \<open>accepts_envelope\<close>
  covers connect, greeting, the TLS upgrade when it is advertised, authentication when
  credentials are given and it is advertised, the sender and every recipient;
  \<open>accepts_body\<close> covers the three steps of the data phase.
\<close>

definition accepts_envelope :: "server \<Rightarrow> string \<Rightarrow> auth option \<Rightarrow> string \<Rightarrow> string list \<Rightarrow> duration \<Rightarrow> tlsConfig option \<Rightarrow> bool" where
  "accepts_envelope srv addr a frm tos timeout tlsc \<longleftrightarrow>
     srv_dial srv addr timeout = None \<and> srv_newClient srv = None \<and>
     srv_hello srv ''localhost'' = None \<and>
     (srv_ext_starttls srv \<longrightarrow> srv_startTLS srv tlsc = None) \<and>
     (case a of None \<Rightarrow> True | Some au \<Rightarrow> srv_ext_auth srv \<longrightarrow> srv_auth srv au = None) \<and>
     srv_mail srv frm = None \<and> list_all (\<lambda>r. srv_rcpt srv r = None) tos"

definition accepts_body :: "server \<Rightarrow> string \<Rightarrow> bool" where
  "accepts_body srv m \<longleftrightarrow> srv_data srv = None \<and> srv_write srv m = None \<and> srv_close srv = None"

text \<open>The steps before the data phase of a session whose envelope is accepted.\<close>

definition envelope_steps :: "server \<Rightarrow> string \<Rightarrow> auth option \<Rightarrow> string \<Rightarrow> string list \<Rightarrow> duration \<Rightarrow> tlsConfig option \<Rightarrow> step list" where
  "envelope_steps srv addr a frm tos timeout tlsc =
     [Dial addr timeout, NewClient, Hello ''localhost''] @
     (if srv_ext_starttls srv then [StartTLS tlsc] else []) @
     (case a of None \<Rightarrow> [] | Some au \<Rightarrow> if srv_ext_auth srv then [Auth au] else []) @
     [Mail frm] @ map Rcpt tos"

definition is_body_step :: "step \<Rightarrow> bool" where
  "is_body_step s = (case s of Data \<Rightarrow> True | Write m \<Rightarrow> True | Close \<Rightarrow> True | _ \<Rightarrow> False)"

text \<open>The configuration that \<open>Init\<close> builds for \<open>no_cert_check\<close> (line 76).\<close>

definition no_cert_check :: "tlsConfig option" where
  "no_cert_check = Some \<lparr> InsecureSkipVerify = True \<rparr>"

text \<open>
  Concrete peers. \<open>good_server\<close> accepts every step, as far as a real peer can: no
  connection is established within less than a millisecond, and the TLS handshake needs
  a configuration it can run with (none, or one that verifies without a server name,
  makes \<open>StartTLS\<close> fail). The second peer does the same but answers the quit with an
  error, the third refuses the connection.
\<close>

definition good_server :: server where
  "good_server = \<lparr>
     srv_dial = (\<lambda>addr t. if unat t < 1000000 then Some (Fail ''i/o timeout'') else None),
     srv_newClient = None, srv_hello = (\<lambda>_. None),
     srv_ext_starttls = True,
     srv_startTLS = (\<lambda>c. case c of
                            None \<Rightarrow> Some (Fail ''tls: no configuration'')
                          | Some cfg \<Rightarrow> if InsecureSkipVerify cfg then None
                                       else Some (Fail ''tls: no server name'')),
     srv_ext_auth = True,
     srv_auth = (\<lambda>_. None), srv_mail = (\<lambda>_. None), srv_rcpt = (\<lambda>_. None),
     srv_data = None, srv_write = (\<lambda>_. None), srv_close = None, srv_quit = None \<rparr>"

definition quit_fails_server :: server where
  "quit_fails_server = good_server \<lparr> srv_quit := Some (Fail ''421 closing'') \<rparr>"

definition down_server :: server where
  "down_server = good_server \<lparr> srv_dial := (\<lambda>_ _. Some (Fail ''connection refused'')) \<rparr>"

subsection \<open>The world: MX cache, its mutex, and the logs of what was done\<close>

text \<open>
  \<open>mxAddrs\<close> and \<open>mxAddrsLock\<close> are the two package variables. \<open>sessions\<close> records every
  call of func \<open>sendMail\<close> with its arguments, the steps it performed and its result;
  \<open>lookups\<close> records every call of \<open>net.LookupMX\<close>.
\<close>

record session =
  s_addr :: string
  s_auth :: "auth option"
  s_from :: string
  s_to :: "string list"
  s_msg :: "string option"
  s_timeout :: duration
  s_tls :: "tlsConfig option"
  s_steps :: "step list"
  s_result :: "err option"

record world =
  mxAddrs :: "string \<rightharpoonup> mx list"
  mxAddrsLock :: bool
  sessions :: "session list"
  lookups :: "string list"

text \<open>
  The outside: \<open>net n addr\<close> is the behaviour of the peer at \<open>addr\<close> towards the session
  made after \<open>n\<close> earlier ones, \<open>dns n host\<close> is the answer of \<open>net.LookupMX host\<close> after
  \<open>n\<close> earlier lookups; so peers and resolver may change their answers over time.
\<close>

type_synonym net = "nat \<Rightarrow> string \<Rightarrow> server"
type_synonym dns = "nat \<Rightarrow> string \<Rightarrow> err + mx list"

text \<open>
  An operation that takes the mutex either returns or blocks in \<open>Lock\<close>. The operations
  below are whole critical sections, so a mutex that is held when one of them starts was
  left held by an operation that has already returned, and nothing will release it.
\<close>

datatype 'a outcome = Blocked | Returned 'a

definition Lock :: "world \<Rightarrow> world option" where
  "Lock w = (if mxAddrsLock w then None else Some (w\<lparr>mxAddrsLock := True\<rparr>))"

definition Unlock :: "world \<Rightarrow> world" where
  "Unlock w = w\<lparr>mxAddrsLock := False\<rparr>"

definition call_sendMail :: "net \<Rightarrow> string \<Rightarrow> auth option \<Rightarrow> string \<Rightarrow> string list \<Rightarrow> string option \<Rightarrow> duration \<Rightarrow> tlsConfig option \<Rightarrow> world \<Rightarrow> err option \<times> world" where
  "call_sendMail net addr a frm tos msg timeout tlsc w =
     (case sendMail (net (length (sessions w)) addr) addr a frm tos msg timeout tlsc of
        (r, st) \<Rightarrow>
          (r, w\<lparr>sessions := sessions w @
                 [\<lparr>s_addr = addr, s_auth = a, s_from = frm, s_to = tos, s_msg = msg,
                   s_timeout = timeout, s_tls = tlsc, s_steps = st, s_result = r\<rparr>]\<rparr>))"

definition testMail :: "net \<Rightarrow> string \<Rightarrow> auth option \<Rightarrow> string \<Rightarrow> string list \<Rightarrow> duration \<Rightarrow> tlsConfig option \<Rightarrow> world \<Rightarrow> err option \<times> world" where
  "testMail net addr a frm tos timeout tlsc w = call_sendMail net addr a frm tos None timeout tlsc w"

subsection \<open>Prepare\<close>

text \<open>\<open>strings.Index\<close>: the index of the first occurrence of \<open>sub\<close>, or \<open>-1\<close>.\<close>

fun index_at :: "string \<Rightarrow> string \<Rightarrow> nat \<Rightarrow> int" where
  "index_at [] sub i = (if sub = [] then int i else - 1)"
| "index_at (c # cs) sub i =
     (if take (length sub) (c # cs) = sub then int i else index_at cs sub (Suc i))"

definition Index :: "string \<Rightarrow> string \<Rightarrow> int" where
  "Index s sub = index_at s sub 0"

text \<open>Lines 92 to 97: the recipients grouped by what follows the first \<open>@\<close>.\<close>

definition host_of :: "string \<Rightarrow> string" where
  "host_of tos = (let i = Index tos ''@'' in drop (nat (i + 1)) tos)"

definition add_recipient :: "(string \<rightharpoonup> string list) \<Rightarrow> string \<Rightarrow> (string \<rightharpoonup> string list)" where
  "add_recipient m tos =
     (let host = host_of tos
      in m(host \<mapsto> (case m host of None \<Rightarrow> [] | Some l \<Rightarrow> l) @ [tos]))"

definition group_by_host :: "string list \<Rightarrow> (string \<rightharpoonup> string list)" where
  "group_by_host rcpts = foldl add_recipient Map.empty rcpts"

text \<open>
  \<open>for host, tos = range o.byHost\<close> visits the entries in an order the runtime picks:
  \<open>ks\<close> is that order of the keys.
\<close>

definition range_map :: "string list \<Rightarrow> (string \<rightharpoonup> string list) \<Rightarrow> (string \<times> string list) list" where
  "range_map ks m = List.map_filter (\<lambda>k. map_option (Pair k) (m k)) ks"

text \<open>
  Lines 99 to 106, the critical section of \<open>Prepare\<close>: a cached list is returned as it
  is; otherwise the resolver is asked, and its list is stored. The error return of
  line 102 leaves the function before line 106 is reached.
\<close>

definition resolve :: "dns \<Rightarrow> string \<Rightarrow> world \<Rightarrow> (err + mx list) outcome \<times> world" where
  "resolve dns host w =
     (case Lock w of
        None \<Rightarrow> (Blocked, w)
      | Some w1 \<Rightarrow>
          (case mxAddrs w1 host of
             Some mxs \<Rightarrow> (Returned (Inr mxs), Unlock w1)
           | None \<Rightarrow>
               (let w2 = w1\<lparr>lookups := lookups w1 @ [host]\<rparr> in
                case dns (length (lookups w1)) host of
                  Inl e \<Rightarrow> (Returned (Inl (LookupError host e)), w2)
                | Inr mxs \<Rightarrow>
                    (Returned (Inr mxs), Unlock (w2\<lparr>mxAddrs := (mxAddrs w2)(host \<mapsto> mxs)\<rparr>)))))"

text \<open>
  Lines 107 to 117: the candidates are tried in order until one test session succeeds.
  The result is the flag \<open>ok\<close> and the variable \<open>err\<close>.
\<close>

fun test_candidates :: "net \<Rightarrow> EmailOutput \<Rightarrow> string list \<Rightarrow> mx list \<Rightarrow> err option \<Rightarrow> world \<Rightarrow> (bool \<times> err option) \<times> world" where
  "test_candidates net eo tos [] err w = ((False, err), w)"
| "test_candidates net eo tos (m # ms) err w =
     (case testMail net (Host m @ '':25'') None (From eo) tos (10 * Second) (tlsConfig eo) w of
        (None, w') \<Rightarrow> ((True, None), w')
      | (Some e, w') \<Rightarrow> test_candidates net eo tos ms (Some e) w')"

text \<open>
  Lines 98 to 122. The variable \<open>err\<close> lives across the iterations: a cache hit leaves it
  as it was, a successful lookup sets it to \<open>nil\<close>.
\<close>

fun Prepare_groups :: "dns \<Rightarrow> net \<Rightarrow> EmailOutput \<Rightarrow> (string \<times> string list) list \<Rightarrow> err option \<Rightarrow> world \<Rightarrow> err option outcome \<times> world" where
  "Prepare_groups dns net eo [] err w = (Returned None, w)"
| "Prepare_groups dns net eo ((host, tos) # rest) err w =
     (case resolve dns host w of
        (Blocked, w1) \<Rightarrow> (Blocked, w1)
      | (Returned (Inl e), w1) \<Rightarrow> (Returned (Some e), w1)
      | (Returned (Inr mxs), w1) \<Rightarrow>
          (case test_candidates net eo tos mxs
                  (case mxAddrs w host of Some _ \<Rightarrow> err | None \<Rightarrow> None) w1 of
             ((True, err'), w2) \<Rightarrow> Prepare_groups dns net eo rest err' w2
           | ((False, err'), w2) \<Rightarrow>
               (Returned (Some (TestSendError (From eo) tos mxs err')), w2)))"

definition Prepare :: "dns \<Rightarrow> net \<Rightarrow> string list \<Rightarrow> EmailOutput \<Rightarrow> world \<Rightarrow> err option outcome \<times> EmailOutput \<times> world" where
  "Prepare dns net ks eo w =
     (if hostport eo = [] then
        (let eo1 = eo\<lparr>byHost := group_by_host (To eo)\<rparr> in
         case Prepare_groups dns net eo1 (range_map ks (byHost eo1)) None w of
           (r, w') \<Rightarrow> (r, eo1, w'))
      else
        (let eo1 = eo\<lparr>byHost := Map.empty\<rparr> in
         case testMail net (hostport eo) (auth eo) (From eo) (To eo) (10 * Second) (tlsConfig eo) w of
           (None, w') \<Rightarrow> (Returned None, eo1\<lparr>byHost := (byHost eo1)([] \<mapsto> To eo)\<rparr>, w')
         | (Some e, w') \<Rightarrow> (Returned (Some e), eo1, w')))"

subsection \<open>The method sendMail\<close>

text \<open>Lines 187 to 189: a missing key reads as the \<open>nil\<close> slice.\<close>

definition read_cache :: "string \<Rightarrow> world \<Rightarrow> mx list outcome \<times> world" where
  "read_cache host w =
     (case Lock w of
        None \<Rightarrow> (Blocked, w)
      | Some w1 \<Rightarrow>
          (Returned (case mxAddrs w1 host of None \<Rightarrow> [] | Some mxs \<Rightarrow> mxs), Unlock w1))"

text \<open>Lines 190 to 199; the result is the variable \<open>err\<close> after the loop.\<close>

fun send_candidates :: "net \<Rightarrow> EmailOutput \<Rightarrow> string list \<Rightarrow> string option \<Rightarrow> mx list \<Rightarrow> err option \<Rightarrow> world \<Rightarrow> err option \<times> world" where
  "send_candidates net eo tos body [] err w = (err, w)"
| "send_candidates net eo tos body (m # ms) err w =
     (case call_sendMail net (Host m @ '':25'') None (From eo) tos body 30 (tlsConfig eo) w of
        (None, w') \<Rightarrow> (None, w')
      | (Some e, w') \<Rightarrow> send_candidates net eo tos body ms (Some e) w')"

fun sendMail_groups :: "net \<Rightarrow> EmailOutput \<Rightarrow> string option \<Rightarrow> (string \<times> string list) list \<Rightarrow> world \<Rightarrow> err option outcome \<times> world" where
  "sendMail_groups net eo body [] w = (Returned None, w)"
| "sendMail_groups net eo body ((host, tos) # rest) w =
     (case read_cache host w of
        (Blocked, w1) \<Rightarrow> (Blocked, w1)
      | (Returned mxs, w1) \<Rightarrow>
          (case send_candidates net eo tos body mxs None w1 of
             (None, w2) \<Rightarrow> sendMail_groups net eo body rest w2
           | (Some e, w2) \<Rightarrow> (Returned (Some (SendError (From eo) tos mxs e)), w2)))"

definition EmailOutput_sendMail :: "net \<Rightarrow> string list \<Rightarrow> EmailOutput \<Rightarrow> string option \<Rightarrow> world \<Rightarrow> err option outcome \<times> world" where
  "EmailOutput_sendMail net ks eo body w =
     (if hostport eo = [] then sendMail_groups net eo body (range_map ks (byHost eo)) w
      else
        (case call_sendMail net (hostport eo) (auth eo) (From eo) (To eo) body DefaultTimeout
                (tlsConfig eo) w of
           (err, w') \<Rightarrow> (Returned err, w')))"

text \<open>
  The delivery of one group: the body of the loop of lines 186 to 204, that is the loop
  run on that group alone. \<open>Returned None\<close> means that the group is reported as
  delivered and the loop goes on; \<open>Returned (Some e)\<close> is the error that the method
  returns for the group.
\<close>

definition deliver_group :: "net \<Rightarrow> EmailOutput \<Rightarrow> string option \<Rightarrow> string \<times> string list \<Rightarrow> world \<Rightarrow> err option outcome \<times> world" where
  "deliver_group net eo body g w = sendMail_groups net eo body [g] w"

text \<open>The start-up test of one group: the body of the loop of lines 98 to 122.\<close>

definition test_group :: "dns \<Rightarrow> net \<Rightarrow> EmailOutput \<Rightarrow> string \<times> string list \<Rightarrow> err option \<Rightarrow> world \<Rightarrow> err option outcome \<times> world" where
  "test_group dns net eo g err w = Prepare_groups dns net eo [g] err w"

subsection \<open>Run\<close>

record message =
  Payload :: string
  Timestamp :: "64 word"
  Severity :: "32 word"
  Logger :: string
  Hostname :: string

text \<open>The verb \<open>%d\<close> on an \<open>int32\<close>.\<close>

definition digit_char :: "nat \<Rightarrow> char" where
  "digit_char d = ''0123456789'' ! d"

fun digits :: "nat \<Rightarrow> string" where
  "digits n = (if n < 10 then [digit_char n] else digits (n div 10) @ [digit_char (n mod 10)])"

definition format_d :: "int \<Rightarrow> string" where
  "format_d i = (if i < 0 then CHR ''-'' # digits (nat (- i)) else digits (nat i))"

definition CRLF :: string where
  "CRLF = [CHR 0x0D, CHR 0x0A]"

text \<open>
  Lines 152 to 162: what is written to \<open>body\<close> for one record. \<open>rfc3339\<close> stands for
  \<open>utils.TsTime(ts).Format(time.RFC3339)\<close>, which lives in another package. Go's \<open>len\<close>
  and slicing of a string count bytes, as \<open>length\<close> and \<open>take\<close> on a \<open>string\<close> do.
\<close>

definition subject_prefix :: "(64 word \<Rightarrow> string) \<Rightarrow> message \<Rightarrow> string" where
  "subject_prefix rfc3339 p =
     ''Subject: '' @ rfc3339 (Timestamp p) @ '' ['' @ format_d (sint (Severity p)) @ ''] '' @
     Logger p @ ''@'' @ Hostname p @ '': ''"

definition message_body :: "(64 word \<Rightarrow> string) \<Rightarrow> message \<Rightarrow> string" where
  "message_body rfc3339 p =
     (let payload = (if length (Payload p) > 100 then take 100 (Payload p) else Payload p)
      in subject_prefix rfc3339 p @ payload @ CRLF @ CRLF @ Payload p)"

text \<open>
  The main loop over the records of the input channel; \<open>order n\<close> is the order in which
  the delivery of record \<open>n\<close> visits the map.
\<close>

fun Run_from :: "net \<Rightarrow> (nat \<Rightarrow> string list) \<Rightarrow> (64 word \<Rightarrow> string) \<Rightarrow> EmailOutput \<Rightarrow> nat \<Rightarrow> message list \<Rightarrow> world \<Rightarrow> err option outcome \<times> world" where
  "Run_from net order rfc3339 eo n [] w = (Returned None, w)"
| "Run_from net order rfc3339 eo n (p # ps) w =
     (case EmailOutput_sendMail net (order n) eo (Some (message_body rfc3339 p)) w of
        (Blocked, w') \<Rightarrow> (Blocked, w')
      | (Returned (Some e), w') \<Rightarrow> (Returned (Some (RunError e)), w')
      | (Returned None, w') \<Rightarrow> Run_from net order rfc3339 eo (Suc n) ps w')"

definition Run :: "net \<Rightarrow> (nat \<Rightarrow> string list) \<Rightarrow> (64 word \<Rightarrow> string) \<Rightarrow> EmailOutput \<Rightarrow> message list \<Rightarrow> world \<Rightarrow> err option outcome \<times> world" where
  "Run net order rfc3339 eo packs w = Run_from net order rfc3339 eo 0 packs w"

subsection \<open>Observing a run\<close>

text \<open>The sessions that were made between two worlds.\<close>

definition new_sessions :: "world \<Rightarrow> world \<Rightarrow> session list" where
  "new_sessions w w' = drop (length (sessions w)) (sessions w')"

text \<open>
  What the engines of one process do to the shared world, in any interleaving: critical
  sections of \<open>Prepare\<close>, critical sections of the method \<open>sendMail\<close>, and sessions.
\<close>

datatype op =
    OpResolve string
  | OpRead string
  | OpSession string "auth option" string "string list" "string option" duration "tlsConfig option"

fun do_op :: "dns \<Rightarrow> net \<Rightarrow> world \<Rightarrow> op \<Rightarrow> world" where
  "do_op dns net w (OpResolve host) = snd (resolve dns host w)"
| "do_op dns net w (OpRead host) = snd (read_cache host w)"
| "do_op dns net w (OpSession addr a frm tos msg timeout tlsc) =
     snd (call_sendMail net addr a frm tos msg timeout tlsc w)"

definition do_ops :: "dns \<Rightarrow> net \<Rightarrow> op list \<Rightarrow> world \<Rightarrow> world" where
  "do_ops dns net ops w = foldl (do_op dns net) w ops"

text \<open>
  The result that session number \<open>n\<close> of the process gets when an engine without fixed
  relay makes it to \<open>addr\<close>.
\<close>

definition nth_session_result :: "net \<Rightarrow> nat \<Rightarrow> string \<Rightarrow> EmailOutput \<Rightarrow> string list \<Rightarrow> string option \<Rightarrow> duration \<Rightarrow> err option" where
  "nth_session_result net n addr eo tos msg timeout =
     fst (sendMail (net n addr) addr None (From eo) tos msg timeout (tlsConfig eo))"

subsection \<open>Concrete inputs\<close>

definition fresh_world :: world where
  "fresh_world = \<lparr> mxAddrs = Map.empty, mxAddrsLock = False, sessions = [], lookups = [] \<rparr>"

definition mx1_x :: mx where "mx1_x = \<lparr> Host = ''mx1.x.com'', Pref = 10 \<rparr>"
definition mx2_x :: mx where "mx2_x = \<lparr> Host = ''mx2.x.com'', Pref = 20 \<rparr>"
definition mx3_x :: mx where "mx3_x = \<lparr> Host = ''mx3.x.com'', Pref = 30 \<rparr>"

text \<open>An engine without a fixed relay whose only recipient is at \<open>x.com\<close>.\<close>

definition engine_x :: EmailOutput where
  "engine_x = \<lparr> From = ''heka@h.org'', To = [''a@x.com''], hostport = [], auth = None,
     byHost = [''x.com'' \<mapsto> [''a@x.com'']], tlsConfig = no_cert_check \<rparr>"

text \<open>A second engine of the same process, for a recipient at \<open>y.com\<close>.\<close>

definition engine_y :: EmailOutput where
  "engine_y = \<lparr> From = ''heka@h.org'', To = [''b@y.com''], hostport = [], auth = None,
     byHost = [''y.com'' \<mapsto> [''b@y.com'']], tlsConfig = no_cert_check \<rparr>"

text \<open>The same recipient behind a fixed relay.\<close>

definition engine_relay :: EmailOutput where
  "engine_relay = \<lparr> From = ''heka@h.org'', To = [''a@x.com''], hostport = ''relay.h.org:25'',
     auth = None, byHost = [[] \<mapsto> [''a@x.com'']], tlsConfig = no_cert_check \<rparr>"

text \<open>A world in which \<open>x.com\<close> has been resolved, and one with an empty cached list.\<close>

definition cached_world :: world where
  "cached_world = fresh_world \<lparr> mxAddrs := [''x.com'' \<mapsto> [mx1_x, mx2_x, mx3_x]] \<rparr>"

definition empty_entry_world :: world where
  "empty_entry_world = fresh_world \<lparr> mxAddrs := [''x.com'' \<mapsto> []] \<rparr>"

definition good_net :: net where
  "good_net = (\<lambda>n addr. good_server)"

text \<open>Only the third exchanger of \<open>x.com\<close> and the relay are up.\<close>

definition third_up_net :: net where
  "third_up_net = (\<lambda>n addr. if addr = ''mx3.x.com:25'' \<or> addr = ''relay.h.org:25''
                               then good_server else down_server)"

text \<open>A resolver whose first answer is a failure and which works from then on.\<close>

definition flaky_dns :: dns where
  "flaky_dns = (\<lambda>n host. if n = 0 then Inl (Fail ''no such host'') else Inr [mx1_x])"

text \<open>A resolver that answers without error and without any record.\<close>

definition empty_dns :: dns where
  "empty_dns = (\<lambda>n host. Inr [])"

text \<open>A resolver that knows \<open>x.com\<close> and fails for every other domain.\<close>

definition x_only_dns :: dns where
  "x_only_dns = (\<lambda>n host. if host = ''x.com'' then Inr [mx1_x, mx2_x, mx3_x]
                            else Inl (Fail ''no such host''))"

definition good_dns :: dns where
  "good_dns = (\<lambda>n host. Inr [mx1_x, mx2_x, mx3_x])"

text \<open>
  The world in which the engine for \<open>x.com\<close> has passed its start-up test in a fresh
  process: the three exchangers are cached, and three test sessions have been made.
\<close>

definition probed_world :: world where
  "probed_world = snd (snd (Prepare good_dns third_up_net [''x.com'']
                              engine_x fresh_world))"

section \<open>Properties of the transport session\<close>

lemma rcpt_phase_accepted:
  "list_all (\<lambda>r. srv_rcpt srv r = None) tos \<Longrightarrow>
   rcpt_phase srv tos msg tr = data_phase srv msg (tr @ map Rcpt tos)"
  by (induction tos arbitrary: tr) simp_all

lemma sendMail_accepted_envelope:
  assumes "accepts_envelope srv addr a frm tos timeout tlsc"
  shows "sendMail srv addr a frm tos msg timeout tlsc =
         data_phase srv msg (envelope_steps srv addr a frm tos timeout tlsc)"
  using assms
  by (cases a)
     (simp_all add: accepts_envelope_def sendMail_def tls_phase_def auth_phase_def
        mail_phase_def envelope_steps_def rcpt_phase_accepted)

lemma is_body_step_simps [simp]:
  "is_body_step Data" "is_body_step (Write m)" "is_body_step Close"
  "\<not> is_body_step (Dial ad t)" "\<not> is_body_step NewClient" "\<not> is_body_step (Hello h)"
  "\<not> is_body_step (StartTLS c)" "\<not> is_body_step (Auth au)" "\<not> is_body_step (Mail f)"
  "\<not> is_body_step (Rcpt r)" "\<not> is_body_step Quit"
  by (simp_all add: is_body_step_def)

lemma rcpt_phase_probe_steps:
  "list_ex is_body_step (snd (rcpt_phase srv tos None tr)) = list_ex is_body_step tr"
  by (induction tos arbitrary: tr)
     (simp_all add: data_phase_def quit_phase_def list_ex_iff split: option.splits)

lemma sendMail_probe_steps:
  "\<not> list_ex is_body_step (snd (sendMail srv addr a frm tos None timeout tlsc))"
  by (simp add: sendMail_def tls_phase_def auth_phase_def mail_phase_def
        rcpt_phase_probe_steps split: option.splits)

text \<open>
  Claim C2, as the code has it: when connect, greeting, TLS upgrade, authentication,
  envelope and body transmission have all succeeded, the result of the session is the
  result of the quit step (line 277 returns \<open>c.Quit()\<close>). A failing quit therefore
  makes the session fail although the body was transmitted.
\<close>

theorem transmitted_session_returns_quit_result:
  assumes "accepts_envelope srv addr a frm tos timeout tlsc" and "accepts_body srv m"
  shows "sendMail srv addr a frm tos (Some m) timeout tlsc =
           (srv_quit srv,
            envelope_steps srv addr a frm tos timeout tlsc @ [Data, Write m, Close, Quit])"
  using assms(2)
  by (simp add: sendMail_accepted_envelope [OF assms(1)] data_phase_def quit_phase_def
        accepts_body_def)

theorem transmitted_session_returns_quit_result_witness:
  "accepts_envelope good_server ''relay.h.org:25'' None ''heka@h.org'' [''a@x.com'']
     DefaultTimeout no_cert_check \<and>
   accepts_body good_server ''Subject: s'' \<and>
   sendMail good_server ''relay.h.org:25'' None ''heka@h.org'' [''a@x.com'']
      (Some ''Subject: s'') DefaultTimeout no_cert_check =
     (None,
      [Dial ''relay.h.org:25'' DefaultTimeout, NewClient, Hello ''localhost'',
       StartTLS no_cert_check, Mail ''heka@h.org'', Rcpt ''a@x.com'', Data,
       Write ''Subject: s'', Close, Quit])"
proof -
  have e: "accepts_envelope good_server ''relay.h.org:25'' None ''heka@h.org'' [''a@x.com'']
             DefaultTimeout no_cert_check"
    by (simp add: accepts_envelope_def good_server_def DefaultTimeout_def Second_def
          no_cert_check_def)
  have b: "accepts_body good_server ''Subject: s''"
    by (simp add: accepts_body_def good_server_def)
  show ?thesis
    using transmitted_session_returns_quit_result [OF e b] e b
    by (simp add: envelope_steps_def good_server_def)
qed

text \<open>
  Claim C2 as stated fails: against a peer that accepts every step up to and including
  the end of the data phase and then answers the quit with an error, the session
  transmits the body and returns that error.
\<close>

theorem quit_failure_fails_session:
  "accepts_envelope quit_fails_server ''relay.h.org:25'' None ''heka@h.org'' [''a@x.com'']
     DefaultTimeout no_cert_check \<and>
   accepts_body quit_fails_server ''Subject: s'' \<and>
   sendMail quit_fails_server ''relay.h.org:25'' None ''heka@h.org'' [''a@x.com'']
      (Some ''Subject: s'') DefaultTimeout no_cert_check =
     (Some (Fail ''421 closing''),
      [Dial ''relay.h.org:25'' DefaultTimeout, NewClient, Hello ''localhost'',
       StartTLS no_cert_check, Mail ''heka@h.org'', Rcpt ''a@x.com'', Data,
       Write ''Subject: s'', Close, Quit])"
  by (simp add: accepts_envelope_def accepts_body_def quit_fails_server_def good_server_def
      sendMail_def tls_phase_def auth_phase_def mail_phase_def data_phase_def quit_phase_def
      DefaultTimeout_def Second_def no_cert_check_def)

text \<open>
  Claim C9, as the code has it: a probe is a session without a body (\<open>testMail\<close>
  passes \<open>nil\<close>). Whatever the peer does, such a session performs no step of the data
  phase: it neither opens it, nor writes, nor closes it. When the peer accepts every
  step up to the last recipient, the session goes on directly to the quit, and the
  result of the quit is the result of the probe: the probe succeeds when the quit is
  accepted too, and fails with the error of the quit otherwise.
\<close>

theorem probe_skips_body:
  "testMail net addr a frm tos timeout tlsc w = call_sendMail net addr a frm tos None timeout tlsc w \<and>
   \<not> list_ex is_body_step (snd (sendMail srv addr a frm tos None timeout tlsc)) \<and>
   (accepts_envelope srv addr a frm tos timeout tlsc \<longrightarrow>
      sendMail srv addr a frm tos None timeout tlsc =
        (srv_quit srv, envelope_steps srv addr a frm tos timeout tlsc @ [Quit])) \<and>
   (accepts_envelope srv addr a frm tos timeout tlsc \<longrightarrow> srv_quit srv = None \<longrightarrow>
      fst (sendMail srv addr a frm tos None timeout tlsc) = None)"
  by (simp add: testMail_def sendMail_probe_steps sendMail_accepted_envelope data_phase_def
        quit_phase_def)

theorem probe_skips_body_witness:
  "accepts_envelope good_server ''mx3.x.com:25'' None ''heka@h.org'' [''a@x.com'']
     (10 * Second) no_cert_check \<and>
   srv_quit good_server = None \<and>
   sendMail good_server ''mx3.x.com:25'' None ''heka@h.org'' [''a@x.com''] None (10 * Second)
      no_cert_check =
     (None,
      [Dial ''mx3.x.com:25'' (10 * Second), NewClient, Hello ''localhost'',
       StartTLS no_cert_check, Mail ''heka@h.org'', Rcpt ''a@x.com'', Quit])"
proof -
  have e: "accepts_envelope good_server ''mx3.x.com:25'' None ''heka@h.org'' [''a@x.com'']
             (10 * Second) no_cert_check"
    by (simp add: accepts_envelope_def good_server_def Second_def no_cert_check_def)
  have q: "srv_quit good_server = None"
    by (simp add: good_server_def)
  show ?thesis
    using probe_skips_body [of good_net "''mx3.x.com:25''" None "''heka@h.org''" "[''a@x.com'']"
        "10 * Second" no_cert_check fresh_world good_server] e q
    by (simp add: envelope_steps_def good_server_def)
qed

text \<open>
  Claim C9 as stated fails: a peer accepts every step of the envelope of a probe and
  answers the quit with an error. The probe makes no step of the data phase, and it does
  not count as successful: it returns the error of the quit.
\<close>

theorem accepted_envelope_probe_fails_on_quit:
  "accepts_envelope quit_fails_server ''mx3.x.com:25'' None ''heka@h.org'' [''a@x.com'']
     (10 * Second) no_cert_check \<and>
   sendMail quit_fails_server ''mx3.x.com:25'' None ''heka@h.org'' [''a@x.com''] None
      (10 * Second) no_cert_check =
     (Some (Fail ''421 closing''),
      [Dial ''mx3.x.com:25'' (10 * Second), NewClient, Hello ''localhost'',
       StartTLS no_cert_check, Mail ''heka@h.org'', Rcpt ''a@x.com'', Quit])"
  by (simp add: accepts_envelope_def quit_fails_server_def good_server_def
      sendMail_def tls_phase_def auth_phase_def mail_phase_def data_phase_def quit_phase_def
      Second_def no_cert_check_def)

section \<open>Grouping the recipients\<close>

lemma host_of_examples:
  "host_of ''a@x.com'' = ''x.com''" "host_of ''b@y.com'' = ''y.com''"
  "host_of ''c@x.com'' = ''x.com''"
  by (simp_all add: host_of_def Index_def)

lemma add_recipient_at:
  "add_recipient m r h =
     (if host_of r = h then Some ((case m h of None \<Rightarrow> [] | Some l \<Rightarrow> l) @ [r]) else m h)"
  by (auto simp add: add_recipient_def Let_def)

lemma foldl_add_recipient:
  "foldl add_recipient m rs h =
     (case filter (\<lambda>t. host_of t = h) rs of
        [] \<Rightarrow> m h
      | g \<Rightarrow> Some ((case m h of None \<Rightarrow> [] | Some l \<Rightarrow> l) @ g))"
proof (induction rs arbitrary: m)
  case Nil
  show ?case by simp
next
  case (Cons r rs)
  have "foldl add_recipient m (r # rs) h = foldl add_recipient (add_recipient m r) rs h"
    by simp
  also have "\<dots> =
     (case filter (\<lambda>t. host_of t = h) rs of
        [] \<Rightarrow> add_recipient m r h
      | g \<Rightarrow> Some ((case add_recipient m r h of None \<Rightarrow> [] | Some l \<Rightarrow> l) @ g))"
    by (rule Cons.IH)
  also have "\<dots> =
     (case filter (\<lambda>t. host_of t = h) (r # rs) of
        [] \<Rightarrow> m h
      | g \<Rightarrow> Some ((case m h of None \<Rightarrow> [] | Some l \<Rightarrow> l) @ g))"
    by (simp add: add_recipient_at split: list.splits option.splits)
  finally show ?case .
qed

lemma group_by_host_at:
  "group_by_host rcpts h =
     (case filter (\<lambda>t. host_of t = h) rcpts of [] \<Rightarrow> None | g \<Rightarrow> Some g)"
  by (simp add: group_by_host_def foldl_add_recipient split: list.splits)

text \<open>
  Claim C7: the destination set a@x.com, b@y.com, c@x.com is grouped into exactly two
  groups, x.com with a@x.com and c@x.com in that order and y.com with b@y.com. In
  general the group of a domain is the list of the recipients at that domain in the
  order of the destination set, and a domain without recipient has no group.
\<close>

theorem grouping_by_domain:
  "group_by_host [''a@x.com'', ''b@y.com'', ''c@x.com''] =
     [''x.com'' \<mapsto> [''a@x.com'', ''c@x.com''], ''y.com'' \<mapsto> [''b@y.com'']] \<and>
   card (dom (group_by_host [''a@x.com'', ''b@y.com'', ''c@x.com''])) = 2 \<and>
   group_by_host rcpts h =
     (case filter (\<lambda>t. host_of t = h) rcpts of [] \<Rightarrow> None | g \<Rightarrow> Some g)"
proof -
  have 1: "group_by_host [''a@x.com'', ''b@y.com'', ''c@x.com''] =
     [''x.com'' \<mapsto> [''a@x.com'', ''c@x.com''], ''y.com'' \<mapsto> [''b@y.com'']]"
    by (rule ext) (simp add: group_by_host_at host_of_examples)
  have 2: "card (dom (group_by_host [''a@x.com'', ''b@y.com'', ''c@x.com''])) = 2"
    unfolding 1 by simp
  from 1 2 group_by_host_at show ?thesis by blast
qed

section \<open>The message body\<close>

text \<open>
  Claim C8: for a record whose payload is longer than 100 characters (the bytes of the
  Go string), the body is the subject prefix, then exactly the first 100 characters of
  the payload, then an empty line, then the whole payload.
\<close>

theorem subject_excerpt_is_first_100:
  assumes "length (Payload p) > 100"
  shows "message_body rfc3339 p =
           subject_prefix rfc3339 p @ take 100 (Payload p) @ CRLF @ CRLF @ Payload p \<and>
         length (take 100 (Payload p)) = 100"
  using assms by (simp add: message_body_def)

theorem subject_excerpt_is_first_100_witness:
  "length (Payload \<lparr> Payload = replicate 100 CHR ''a'' @ ''bc'', Timestamp = 0, Severity = 6,
       Logger = ''app'', Hostname = ''h1'' \<rparr>) > 100 \<and>
   message_body (\<lambda>t. ''1970-01-01T00:00:00Z'')
     \<lparr> Payload = replicate 100 CHR ''a'' @ ''bc'', Timestamp = 0, Severity = 6,
       Logger = ''app'', Hostname = ''h1'' \<rparr> =
   ''Subject: 1970-01-01T00:00:00Z [6] app@h1: '' @ replicate 100 CHR ''a'' @
     [CHR 0x0D, CHR 0x0A, CHR 0x0D, CHR 0x0A] @ replicate 100 CHR ''a'' @ ''bc''"
  using subject_excerpt_is_first_100
    [of "\<lparr> Payload = replicate 100 CHR ''a'' @ ''bc'', Timestamp = 0, Severity = 6,
           Logger = ''app'', Hostname = ''h1'' \<rparr>" "\<lambda>t. ''1970-01-01T00:00:00Z''"]
  by (simp add: subject_prefix_def CRLF_def format_d_def digit_char_def)

section \<open>The sessions of a delivery\<close>

lemma call_sendMail_eq:
  "call_sendMail net addr a frm tos msg timeout tlsc w =
     (fst (sendMail (net (length (sessions w)) addr) addr a frm tos msg timeout tlsc),
      w\<lparr>sessions := sessions w @
           [\<lparr>s_addr = addr, s_auth = a, s_from = frm, s_to = tos, s_msg = msg,
             s_timeout = timeout, s_tls = tlsc,
             s_steps = snd (sendMail (net (length (sessions w)) addr) addr a frm tos msg timeout tlsc),
             s_result = fst (sendMail (net (length (sessions w)) addr) addr a frm tos msg timeout tlsc)\<rparr>]\<rparr>)"
  by (simp add: call_sendMail_def split: prod.splits)

text \<open>
  A delivery changes nothing of the world but the log of sessions; without fixed relay
  all its sessions carry the literal timeout of line 194.
\<close>

lemma send_candidates_world:
  "\<exists>new. snd (send_candidates net eo tos body mxs err w) = w\<lparr>sessions := sessions w @ new\<rparr> \<and>
         list_all (\<lambda>s. s_timeout s = 30) new"
proof (induction mxs arbitrary: err w)
  case Nil
  show ?case by (intro exI [of _ "[]"]) simp
next
  case (Cons m ms)
  obtain r w1 where c: "call_sendMail net (Host m @ '':25'') None (From eo) tos body 30 (tlsConfig eo) w = (r, w1)"
    by (cases "call_sendMail net (Host m @ '':25'') None (From eo) tos body 30 (tlsConfig eo) w")
  then obtain s where w1: "w1 = w\<lparr>sessions := sessions w @ [s]\<rparr>" and s: "s_timeout s = 30"
    by (auto simp add: call_sendMail_eq)
  show ?case
  proof (cases r)
    case None
    with c w1 s show ?thesis by (intro exI [of _ "[s]"]) simp
  next
    case (Some e)
    from Cons.IH [of "Some e" w1] obtain new where
      n: "snd (send_candidates net eo tos body ms (Some e) w1) = w1\<lparr>sessions := sessions w1 @ new\<rparr>"
      and a: "list_all (\<lambda>s. s_timeout s = 30) new" by blast
    from c Some n a w1 s show ?thesis by (intro exI [of _ "s # new"]) simp
  qed
qed

lemma read_cache_world:
  "read_cache host w = (Returned mxs, w') \<Longrightarrow> w' = w"
  by (auto simp add: read_cache_def Lock_def Unlock_def split: if_splits)

lemma read_cache_blocked:
  "read_cache host w = (Blocked, w') \<Longrightarrow> w' = w"
  by (auto simp add: read_cache_def Lock_def Unlock_def split: if_splits)

lemma sendMail_groups_world:
  "\<exists>new. snd (sendMail_groups net eo body gs w) = w\<lparr>sessions := sessions w @ new\<rparr> \<and>
         list_all (\<lambda>s. s_timeout s = 30) new"
proof (induction gs arbitrary: w)
  case Nil
  show ?case by (intro exI [of _ "[]"]) simp
next
  case (Cons g gs)
  obtain host tos where g: "g = (host, tos)" by (cases g)
  show ?case
  proof (cases "read_cache host w")
    case (Pair out w1)
    show ?thesis
    proof (cases out)
      case Blocked
      with Pair g read_cache_blocked [of host w w1] show ?thesis
        by (intro exI [of _ "[]"]) simp
    next
      case (Returned mxs)
      with Pair have w1: "w1 = w" using read_cache_world by blast
      obtain r w2 where sc: "send_candidates net eo tos body mxs None w = (r, w2)"
        by (cases "send_candidates net eo tos body mxs None w")
      from send_candidates_world [of net eo tos body mxs None w] sc obtain new1 where
        n1: "w2 = w\<lparr>sessions := sessions w @ new1\<rparr>" and a1: "list_all (\<lambda>s. s_timeout s = 30) new1"
        by auto
      show ?thesis
      proof (cases r)
        case None
        from Cons.IH [of w2] obtain new2 where
          n2: "snd (sendMail_groups net eo body gs w2) = w2\<lparr>sessions := sessions w2 @ new2\<rparr>"
          and a2: "list_all (\<lambda>s. s_timeout s = 30) new2" by blast
        from g Pair Returned w1 sc None n1 a1 n2 a2 show ?thesis
          by (intro exI [of _ "new1 @ new2"]) simp
      next
        case (Some e)
        from g Pair Returned w1 sc Some n1 a1 show ?thesis
          by (intro exI [of _ "new1"]) simp
      qed
    qed
  qed
qed

lemma new_sessions_append [simp]:
  "new_sessions w (w\<lparr>sessions := sessions w @ new\<rparr>) = new"
  by (simp add: new_sessions_def)

text \<open>
  Claim C10: every session that a delivery of the main loop makes without fixed relay is
  invoked with the timeout 30, that is 30 nanoseconds; the one session that a delivery
  through the fixed relay makes is invoked with \<open>DefaultTimeout\<close>, that is 30 seconds.
  The two values differ.
\<close>

theorem relay_modes_use_different_timeouts:
  "(hostport eo = [] \<longrightarrow>
      list_all (\<lambda>s. s_timeout s = 30)
        (new_sessions w (snd (EmailOutput_sendMail net ks eo body w)))) \<and>
   (hostport eo \<noteq> [] \<longrightarrow>
      map s_timeout (new_sessions w (snd (EmailOutput_sendMail net ks eo body w))) =
        [DefaultTimeout]) \<and>
   unat (30 :: duration) = 30 \<and> unat DefaultTimeout = 30 * 1000000000 \<and>
   DefaultTimeout \<noteq> 30"
proof -
  have per_domain: "list_all (\<lambda>s. s_timeout s = 30)
        (new_sessions w (snd (EmailOutput_sendMail net ks eo body w)))" if "hostport eo = []"
  proof -
    from sendMail_groups_world [of net eo body "range_map ks (byHost eo)" w] obtain new where
      "snd (sendMail_groups net eo body (range_map ks (byHost eo)) w) = w\<lparr>sessions := sessions w @ new\<rparr>"
      and "list_all (\<lambda>s. s_timeout s = 30) new" by blast
    with that show ?thesis by (simp add: EmailOutput_sendMail_def)
  qed
  have relay: "map s_timeout (new_sessions w (snd (EmailOutput_sendMail net ks eo body w))) =
        [DefaultTimeout]" if "hostport eo \<noteq> []"
    using that by (simp add: EmailOutput_sendMail_def call_sendMail_eq)
  have v: "unat DefaultTimeout = 30 * 1000000000"
    by (simp add: DefaultTimeout_def Second_def)
  have d: "DefaultTimeout \<noteq> 30"
    by (simp add: DefaultTimeout_def Second_def)
  from per_domain relay v d show ?thesis by simp
qed

lemmas eval_defs = EmailOutput_sendMail_def range_map_def read_cache_def Lock_def Unlock_def
  call_sendMail_eq sendMail_def tls_phase_def auth_phase_def mail_phase_def data_phase_def
  quit_phase_def good_server_def down_server_def quit_fails_server_def third_up_net_def
  good_net_def engine_x_def engine_relay_def fresh_world_def cached_world_def
  empty_entry_world_def mx1_x_def mx2_x_def mx3_x_def new_sessions_def

theorem relay_modes_use_different_timeouts_witness:
  "hostport engine_x = [] \<and> hostport engine_relay \<noteq> [] \<and>
   map s_timeout (new_sessions cached_world
      (snd (EmailOutput_sendMail third_up_net [''x.com''] engine_x (Some ''m'') cached_world))) = [30, 30, 30] \<and>
   map s_timeout (new_sessions cached_world
      (snd (EmailOutput_sendMail third_up_net [''x.com''] engine_relay (Some ''m'') cached_world))) = [30000000000]"
  using relay_modes_use_different_timeouts [of engine_x cached_world third_up_net "[''x.com'']" "Some ''m''"]
    relay_modes_use_different_timeouts [of engine_relay cached_world third_up_net "[''x.com'']" "Some ''m''"]
  by (simp add: eval_defs DefaultTimeout_def Second_def)

section \<open>The MX cache and its mutex\<close>

lemma unlock_after_lock:
  "\<not> mxAddrsLock w \<Longrightarrow> Lock w = Some (w\<lparr>mxAddrsLock := True\<rparr>) \<and> Unlock (w\<lparr>mxAddrsLock := True\<rparr>) = w"
  by (simp add: Lock_def Unlock_def)

lemma read_cache_free:
  "\<not> mxAddrsLock w \<Longrightarrow>
   read_cache host w = (Returned (case mxAddrs w host of None \<Rightarrow> [] | Some mxs \<Rightarrow> mxs), w)"
  by (simp add: read_cache_def unlock_after_lock)

lemma resolve_hit:
  "\<not> mxAddrsLock w \<Longrightarrow> mxAddrs w host = Some mxs \<Longrightarrow> resolve dns host w = (Returned (Inr mxs), w)"
  by (simp add: resolve_def unlock_after_lock)

lemma resolve_locked:
  "mxAddrsLock w \<Longrightarrow> resolve dns host w = (Blocked, w)"
  by (simp add: resolve_def Lock_def)

lemma read_cache_locked:
  "mxAddrsLock w \<Longrightarrow> read_cache host w = (Blocked, w)"
  by (simp add: read_cache_def Lock_def)

lemma resolve_failure:
  assumes "resolve dns host w = (Returned (Inl e), w')"
  shows "mxAddrs w' = mxAddrs w" and "mxAddrsLock w'" and "lookups w' = lookups w @ [host]"
    and "mxAddrs w host = None"
  using assms
  by (auto simp add: resolve_def Lock_def Unlock_def Let_def split: if_splits option.splits sum.splits)

lemma resolve_success:
  assumes "resolve dns host w = (Returned (Inr mxs), w')"
  shows "mxAddrs w' host = Some mxs" and "\<not> mxAddrsLock w'"
  using assms
  by (auto simp add: resolve_def Lock_def Unlock_def Let_def split: if_splits option.splits sum.splits)

lemma resolve_keeps_entry:
  "mxAddrs w h = Some mxs \<Longrightarrow> mxAddrs (snd (resolve dns host w)) h = Some mxs"
  by (auto simp add: resolve_def Lock_def Unlock_def Let_def split: if_splits option.splits sum.splits)

lemma do_op_keeps_entry:
  "mxAddrs w h = Some mxs \<Longrightarrow> mxAddrs (do_op dns net w x) h = Some mxs"
  by (cases x)
     (auto simp add: resolve_keeps_entry read_cache_def Lock_def Unlock_def call_sendMail_eq)

lemma do_ops_keeps_entry:
  "mxAddrs w h = Some mxs \<Longrightarrow> mxAddrs (do_ops dns net xs w) h = Some mxs"
  unfolding do_ops_def
  by (induction xs arbitrary: w) (simp_all add: do_op_keeps_entry)

lemma resolve_sessions:
  "sessions (snd (resolve dns host w)) = sessions w"
  by (auto simp add: resolve_def Lock_def Unlock_def Let_def split: if_splits option.splits sum.splits)

text \<open>
  Everything \<open>Prepare\<close>, the method \<open>sendMail\<close> and \<open>Run\<close> do to the world is a
  sequence of critical sections and sessions.
\<close>

lemma do_ops_Nil [simp]: "do_ops dns net [] w = w"
  by (simp add: do_ops_def)

lemma do_ops_Cons [simp]: "do_ops dns net (x # xs) w = do_ops dns net xs (do_op dns net w x)"
  by (simp add: do_ops_def)

lemma do_ops_append: "do_ops dns net (xs @ ys) w = do_ops dns net ys (do_ops dns net xs w)"
  by (simp add: do_ops_def)

lemma test_candidates_ops:
  "\<exists>xs. snd (test_candidates net eo tos mxs err w) = do_ops dns net xs w"
proof (induction mxs arbitrary: err w)
  case Nil
  show ?case by (intro exI [of _ "[]"]) simp
next
  case (Cons m ms)
  let ?x = "OpSession (Host m @ '':25'') None (From eo) tos None (10 * Second) (tlsConfig eo)"
  obtain r w1 where t: "testMail net (Host m @ '':25'') None (From eo) tos (10 * Second) (tlsConfig eo) w = (r, w1)"
    by (cases "testMail net (Host m @ '':25'') None (From eo) tos (10 * Second) (tlsConfig eo) w")
  then have w1: "do_op dns net w ?x = w1" by (simp add: testMail_def)
  show ?case
  proof (cases r)
    case None
    with t w1 show ?thesis by (intro exI [of _ "[?x]"]) simp
  next
    case (Some e)
    from Cons.IH [of "Some e" w1] obtain xs where
      "snd (test_candidates net eo tos ms (Some e) w1) = do_ops dns net xs w1" by blast
    with t w1 Some show ?thesis by (intro exI [of _ "?x # xs"]) simp
  qed
qed

lemma send_candidates_ops:
  "\<exists>xs. snd (send_candidates net eo tos body mxs err w) = do_ops dns net xs w"
proof (induction mxs arbitrary: err w)
  case Nil
  show ?case by (intro exI [of _ "[]"]) simp
next
  case (Cons m ms)
  let ?x = "OpSession (Host m @ '':25'') None (From eo) tos body 30 (tlsConfig eo)"
  obtain r w1 where t: "call_sendMail net (Host m @ '':25'') None (From eo) tos body 30 (tlsConfig eo) w = (r, w1)"
    by (cases "call_sendMail net (Host m @ '':25'') None (From eo) tos body 30 (tlsConfig eo) w")
  then have w1: "do_op dns net w ?x = w1" by simp
  show ?case
  proof (cases r)
    case None
    with t w1 show ?thesis by (intro exI [of _ "[?x]"]) simp
  next
    case (Some e)
    from Cons.IH [of "Some e" w1] obtain xs where
      "snd (send_candidates net eo tos body ms (Some e) w1) = do_ops dns net xs w1" by blast
    with t w1 Some show ?thesis by (intro exI [of _ "?x # xs"]) simp
  qed
qed

lemma Prepare_groups_ops:
  "\<exists>xs. snd (Prepare_groups dns net eo gs err w) = do_ops dns net xs w"
proof (induction gs arbitrary: err w)
  case Nil
  show ?case by (intro exI [of _ "[]"]) simp
next
  case (Cons g gs)
  obtain host tos where g: "g = (host, tos)" by (cases g)
  obtain out w1 where r: "resolve dns host w = (out, w1)" by (cases "resolve dns host w")
  then have w1: "do_op dns net w (OpResolve host) = w1" by simp
  show ?case
  proof (cases out)
    case Blocked
    with g r w1 show ?thesis by (intro exI [of _ "[OpResolve host]"]) simp
  next
    case (Returned res)
    show ?thesis
    proof (cases res)
      case (Inl e)
      with g r w1 Returned show ?thesis by (intro exI [of _ "[OpResolve host]"]) simp
    next
      case (Inr mxs)
      let ?e = "case mxAddrs w host of Some _ \<Rightarrow> err | None \<Rightarrow> None"
      obtain ok err' w2 where t: "test_candidates net eo tos mxs ?e w1 = ((ok, err'), w2)"
        by (cases "test_candidates net eo tos mxs ?e w1") auto
      from test_candidates_ops [of net eo tos mxs ?e w1 dns] t obtain xs where
        w2: "do_ops dns net xs w1 = w2" by auto
      show ?thesis
      proof (cases ok)
        case True
        from Cons.IH [of err' w2] obtain ys where
          "snd (Prepare_groups dns net eo gs err' w2) = do_ops dns net ys w2" by blast
        with g r w1 Returned Inr t w2 True show ?thesis
          by (intro exI [of _ "OpResolve host # xs @ ys"]) (simp add: do_ops_append)
      next
        case False
        with g r w1 Returned Inr t w2 show ?thesis
          by (intro exI [of _ "OpResolve host # xs"]) simp
      qed
    qed
  qed
qed

lemma sendMail_groups_ops:
  "\<exists>xs. snd (sendMail_groups net eo body gs w) = do_ops dns net xs w"
proof (induction gs arbitrary: w)
  case Nil
  show ?case by (intro exI [of _ "[]"]) simp
next
  case (Cons g gs)
  obtain host tos where g: "g = (host, tos)" by (cases g)
  obtain out w1 where r: "read_cache host w = (out, w1)" by (cases "read_cache host w")
  then have w1: "do_op dns net w (OpRead host) = w1" by simp
  show ?case
  proof (cases out)
    case Blocked
    with g r w1 show ?thesis by (intro exI [of _ "[OpRead host]"]) simp
  next
    case (Returned mxs)
    obtain e w2 where t: "send_candidates net eo tos body mxs None w1 = (e, w2)"
      by (cases "send_candidates net eo tos body mxs None w1")
    from send_candidates_ops [of net eo tos body mxs None w1 dns] t obtain xs where
      w2: "do_ops dns net xs w1 = w2" by auto
    show ?thesis
    proof (cases e)
      case None
      from Cons.IH [of w2] obtain ys where
        "snd (sendMail_groups net eo body gs w2) = do_ops dns net ys w2" by blast
      with g r w1 Returned t w2 None show ?thesis
        by (intro exI [of _ "OpRead host # xs @ ys"]) (simp add: do_ops_append)
    next
      case (Some e')
      with g r w1 Returned t w2 show ?thesis
        by (intro exI [of _ "OpRead host # xs"]) simp
    qed
  qed
qed

lemma Prepare_ops:
  "\<exists>xs. snd (snd (Prepare dns net ks eo w)) = do_ops dns net xs w"
proof (cases "hostport eo = []")
  case True
  from Prepare_groups_ops [of dns net "eo\<lparr>byHost := group_by_host (To eo)\<rparr>"
      "range_map ks (group_by_host (To eo))" None w]
  obtain xs where "snd (Prepare_groups dns net (eo\<lparr>byHost := group_by_host (To eo)\<rparr>)
      (range_map ks (group_by_host (To eo))) None w) = do_ops dns net xs w" by blast
  with True show ?thesis
    by (intro exI [of _ xs]) (auto simp add: Prepare_def Let_def split: prod.splits)
next
  case False
  let ?x = "OpSession (hostport eo) (auth eo) (From eo) (To eo) None (10 * Second) (tlsConfig eo)"
  from False show ?thesis
    by (intro exI [of _ "[?x]"])
       (simp add: Prepare_def Let_def testMail_def split: prod.splits option.splits)
qed

lemma EmailOutput_sendMail_ops:
  "\<exists>xs. snd (EmailOutput_sendMail net ks eo body w) = do_ops dns net xs w"
proof (cases "hostport eo = []")
  case True
  with sendMail_groups_ops [of net eo body "range_map ks (byHost eo)" w dns] show ?thesis
    by (simp add: EmailOutput_sendMail_def)
next
  case False
  let ?x = "OpSession (hostport eo) (auth eo) (From eo) (To eo) body DefaultTimeout (tlsConfig eo)"
  from False show ?thesis
    by (intro exI [of _ "[?x]"]) (simp add: EmailOutput_sendMail_def split: prod.splits)
qed

lemma Run_from_ops:
  "\<exists>xs. snd (Run_from net order rfc3339 eo n packs w) = do_ops dns net xs w"
proof (induction packs arbitrary: n w)
  case Nil
  show ?case by (intro exI [of _ "[]"]) simp
next
  case (Cons p ps)
  obtain out w1 where s: "EmailOutput_sendMail net (order n) eo (Some (message_body rfc3339 p)) w = (out, w1)"
    by (cases "EmailOutput_sendMail net (order n) eo (Some (message_body rfc3339 p)) w")
  with EmailOutput_sendMail_ops [of net "order n" eo "Some (message_body rfc3339 p)" w dns]
  obtain xs where w1: "do_ops dns net xs w = w1" by auto
  from Cons.IH [of "Suc n" w1] obtain ys where
    r: "snd (Run_from net order rfc3339 eo (Suc n) ps w1) = do_ops dns net ys w1" by blast
  show ?case
  proof (cases out)
    case Blocked
    with s w1 show ?thesis by (intro exI [of _ xs]) simp
  next
    case (Returned e)
    with s w1 r show ?thesis
      by (cases e) (auto simp add: do_ops_append intro: exI [of _ "xs @ ys"] exI [of _ xs])
  qed
qed

text \<open>
  What is cached stays cached: no operation of the process removes or replaces an entry.
  Unless a failed lookup has left the mutex locked, a later resolution or read returns
  the cached list without lookup.
\<close>

lemma cached_entry_is_stable:
  assumes first: "resolve dns host w0 = (Returned (Inr mxs), w1)"
    and later: "w2 = do_ops dns net xs w1"
  shows "mxAddrs w2 host = Some mxs \<and>
         lookups (snd (resolve dns' host w2)) = lookups w2 \<and>
         (\<not> mxAddrsLock w2 \<longrightarrow>
            resolve dns' host w2 = (Returned (Inr mxs), w2) \<and>
            read_cache host w2 = (Returned mxs, w2))"
proof -
  from first have "mxAddrs w1 host = Some mxs" by (rule resolve_success)
  with later have e: "mxAddrs w2 host = Some mxs" by (simp add: do_ops_keeps_entry)
  show ?thesis
  proof (cases "mxAddrsLock w2")
    case True
    with e show ?thesis by (simp add: resolve_locked)
  next
    case False
    with e show ?thesis by (simp add: resolve_hit read_cache_free)
  qed
qed

text \<open>
  When the candidate loop of the main loop ends without error, either it has made
  sessions of which exactly the last one succeeded, or the candidate list was empty and
  no session was made at all.
\<close>

lemma send_candidates_delivered:
  "send_candidates net eo tos body mxs err w = (None, w') \<Longrightarrow>
     (mxs = [] \<and> err = None \<and> w' = w) \<or>
     (\<exists>pre s. w' = w\<lparr>sessions := sessions w @ pre @ [s]\<rparr> \<and> s_result s = None \<and>
        s_addr s \<in> (\<lambda>m. Host m @ '':25'') ` set mxs \<and>
        list_all (\<lambda>s. s_result s \<noteq> None) pre)"
proof (induction mxs arbitrary: err w)
  case Nil
  then show ?case by simp
next
  case (Cons m ms)
  let ?r = "fst (sendMail (net (length (sessions w)) (Host m @ '':25'')) (Host m @ '':25'') None (From eo) tos body 30 (tlsConfig eo))"
  let ?s = "\<lparr>s_addr = Host m @ '':25'', s_auth = None, s_from = From eo, s_to = tos, s_msg = body,
             s_timeout = 30, s_tls = tlsConfig eo,
             s_steps = snd (sendMail (net (length (sessions w)) (Host m @ '':25'')) (Host m @ '':25'') None (From eo) tos body 30 (tlsConfig eo)),
             s_result = ?r\<rparr>"
  let ?w1 = "w\<lparr>sessions := sessions w @ [?s]\<rparr>"
  show ?case
  proof (cases ?r)
    case None
    with Cons.prems have "w' = ?w1" by (simp add: call_sendMail_eq)
    with None have "w' = w\<lparr>sessions := sessions w @ [] @ [?s]\<rparr> \<and> s_result ?s = None \<and>
        s_addr ?s \<in> (\<lambda>m. Host m @ '':25'') ` set (m # ms) \<and> list_all (\<lambda>s. s_result s \<noteq> None) []"
      by simp
    then show ?thesis by blast
  next
    case (Some e)
    with Cons.prems have rec: "send_candidates net eo tos body ms (Some e) ?w1 = (None, w')"
      by (simp add: call_sendMail_eq)
    from Cons.IH [OF rec] obtain pre s where
      w': "w' = ?w1\<lparr>sessions := sessions ?w1 @ pre @ [s]\<rparr>" and ok: "s_result s = None"
      and ad: "s_addr s \<in> (\<lambda>m. Host m @ '':25'') ` set ms"
      and pre: "list_all (\<lambda>s. s_result s \<noteq> None) pre"
      by auto
    from w' have "w' = w\<lparr>sessions := sessions w @ (?s # pre) @ [s]\<rparr>" by simp
    moreover from pre Some have "list_all (\<lambda>s. s_result s \<noteq> None) (?s # pre)" by simp
    moreover from ad have "s_addr s \<in> (\<lambda>m. Host m @ '':25'') ` set (m # ms)" by auto
    ultimately show ?thesis using ok by blast
  qed
qed

section \<open>Failover over the candidates of a group\<close>

lemma send_three:
  assumes "nth_session_result net (length (sessions w)) (Host m1 @ '':25'') eo tos body 30 \<noteq> None"
    and "nth_session_result net (length (sessions w) + 1) (Host m2 @ '':25'') eo tos body 30 \<noteq> None"
    and "nth_session_result net (length (sessions w) + 2) (Host m3 @ '':25'') eo tos body 30 = None"
  shows "fst (send_candidates net eo tos body (m1 # m2 # m3 # others) err w) = None"
    and "map s_addr (new_sessions w (snd (send_candidates net eo tos body (m1 # m2 # m3 # others) err w))) =
           [Host m1 @ '':25'', Host m2 @ '':25'', Host m3 @ '':25'']"
    and "map (\<lambda>s. s_result s = None) (new_sessions w (snd (send_candidates net eo tos body (m1 # m2 # m3 # others) err w))) =
           [False, False, True]"
    and "mxAddrs (snd (send_candidates net eo tos body (m1 # m2 # m3 # others) err w)) = mxAddrs w"
  using assms
  by (auto simp add: nth_session_result_def call_sendMail_eq new_sessions_def split: option.splits)

lemma test_three:
  assumes "nth_session_result net (length (sessions w)) (Host m1 @ '':25'') eo tos None (10 * Second) \<noteq> None"
    and "nth_session_result net (length (sessions w) + 1) (Host m2 @ '':25'') eo tos None (10 * Second) \<noteq> None"
    and "nth_session_result net (length (sessions w) + 2) (Host m3 @ '':25'') eo tos None (10 * Second) = None"
  shows "fst (test_candidates net eo tos (m1 # m2 # m3 # others) err w) = (True, None)"
    and "map s_addr (new_sessions w (snd (test_candidates net eo tos (m1 # m2 # m3 # others) err w))) =
           [Host m1 @ '':25'', Host m2 @ '':25'', Host m3 @ '':25'']"
    and "map (\<lambda>s. s_result s = None) (new_sessions w (snd (test_candidates net eo tos (m1 # m2 # m3 # others) err w))) =
           [False, False, True]"
  using assms
  by (auto simp add: nth_session_result_def testMail_def call_sendMail_eq new_sessions_def split: option.splits)

lemma sendMail_groups_Cons:
  "sendMail_groups net eo body (g # rest) w =
     (case deliver_group net eo body g w of
        (Returned None, w') \<Rightarrow> sendMail_groups net eo body rest w'
      | (Returned (Some e), w') \<Rightarrow> (Returned (Some e), w')
      | (Blocked, w') \<Rightarrow> (Blocked, w'))"
  by (cases g)
     (simp add: deliver_group_def split: prod.splits outcome.splits option.splits)

lemma deliver_group_free:
  assumes "\<not> mxAddrsLock w" and "mxAddrs w host = Some mxs"
  shows "deliver_group net eo body (host, tos) w =
     (case send_candidates net eo tos body mxs None w of
        (None, w2) \<Rightarrow> (Returned None, w2)
      | (Some e, w2) \<Rightarrow> (Returned (Some (SendError (From eo) tos mxs e)), w2))"
  using assms by (simp add: deliver_group_def read_cache_free split: prod.splits option.splits)

lemma deliver_group_locked:
  "mxAddrsLock w \<Longrightarrow> deliver_group net eo body (host, tos) w = (Blocked, w)"
  by (simp add: deliver_group_def read_cache_locked)

lemma send_after_two_failures:
  assumes "nth_session_result net (length (sessions w)) (Host m1 @ '':25'') eo tos body 30 \<noteq> None"
    and "nth_session_result net (length (sessions w) + 1) (Host m2 @ '':25'') eo tos body 30 \<noteq> None"
  shows "take 3 (map s_addr (new_sessions w
            (snd (send_candidates net eo tos body (m1 # m2 # m3 # others) err w)))) =
           [Host m1 @ '':25'', Host m2 @ '':25'', Host m3 @ '':25'']"
    and "(fst (send_candidates net eo tos body (m1 # m2 # m3 # others) err w) = None \<and>
          map s_addr (new_sessions w
            (snd (send_candidates net eo tos body (m1 # m2 # m3 # others) err w))) =
           [Host m1 @ '':25'', Host m2 @ '':25'', Host m3 @ '':25'']) =
         (nth_session_result net (length (sessions w) + 2) (Host m3 @ '':25'') eo tos body 30 = None)"
proof -
  let ?a1 = "Host m1 @ '':25''" and ?a2 = "Host m2 @ '':25''" and ?a3 = "Host m3 @ '':25''"
  let ?s = "\<lambda>k a. \<lparr>s_addr = a, s_auth = None, s_from = From eo, s_to = tos, s_msg = body,
             s_timeout = 30, s_tls = tlsConfig eo,
             s_steps = snd (sendMail (net k a) a None (From eo) tos body 30 (tlsConfig eo)),
             s_result = fst (sendMail (net k a) a None (From eo) tos body 30 (tlsConfig eo))\<rparr>"
  let ?n = "length (sessions w)"
  let ?w3 = "w\<lparr>sessions := sessions w @ [?s ?n ?a1, ?s (Suc ?n) ?a2, ?s (Suc (Suc ?n)) ?a3]\<rparr>"
  obtain e1 where e1: "fst (sendMail (net ?n ?a1) ?a1 None (From eo) tos body 30 (tlsConfig eo)) = Some e1"
    using assms(1) by (auto simp add: nth_session_result_def)
  obtain e2 where e2: "fst (sendMail (net (Suc ?n) ?a2) ?a2 None (From eo) tos body 30 (tlsConfig eo)) = Some e2"
    using assms(2) by (auto simp add: nth_session_result_def)
  have three: "send_candidates net eo tos body (m1 # m2 # m3 # others) err w =
      (case fst (sendMail (net (Suc (Suc ?n)) ?a3) ?a3 None (From eo) tos body 30 (tlsConfig eo)) of
         None \<Rightarrow> (None, ?w3)
       | Some e3 \<Rightarrow> send_candidates net eo tos body others (Some e3) ?w3)"
    using e1 e2 by (simp add: call_sendMail_eq split: option.splits)
  have tail: "\<exists>new. snd (send_candidates net eo tos body others e ?w3) =
      w\<lparr>sessions := sessions w @ [?s ?n ?a1, ?s (Suc ?n) ?a2, ?s (Suc (Suc ?n)) ?a3] @ new\<rparr>" for e
  proof -
    from send_candidates_world [of net eo tos body others e ?w3] obtain new where
      "snd (send_candidates net eo tos body others e ?w3) = ?w3\<lparr>sessions := sessions ?w3 @ new\<rparr>"
      by blast
    then have "snd (send_candidates net eo tos body others e ?w3) =
      w\<lparr>sessions := sessions w @ [?s ?n ?a1, ?s (Suc ?n) ?a2, ?s (Suc (Suc ?n)) ?a3] @ new\<rparr>"
      by simp
    then show ?thesis by blast
  qed
  show "take 3 (map s_addr (new_sessions w
            (snd (send_candidates net eo tos body (m1 # m2 # m3 # others) err w)))) = [?a1, ?a2, ?a3]"
  proof (cases "fst (sendMail (net (Suc (Suc ?n)) ?a3) ?a3 None (From eo) tos body 30 (tlsConfig eo))")
    case None
    with three show ?thesis by (simp add: new_sessions_def)
  next
    case (Some e3)
    from tail [of "Some e3"] obtain new where
      "snd (send_candidates net eo tos body others (Some e3) ?w3) =
       w\<lparr>sessions := sessions w @ [?s ?n ?a1, ?s (Suc ?n) ?a2, ?s (Suc (Suc ?n)) ?a3] @ new\<rparr>"
      by blast
    with three Some show ?thesis by (simp add: new_sessions_def)
  qed
  show "(fst (send_candidates net eo tos body (m1 # m2 # m3 # others) err w) = None \<and>
          map s_addr (new_sessions w
            (snd (send_candidates net eo tos body (m1 # m2 # m3 # others) err w))) = [?a1, ?a2, ?a3]) =
         (nth_session_result net (?n + 2) ?a3 eo tos body 30 = None)"
  proof (cases "fst (sendMail (net (Suc (Suc ?n)) ?a3) ?a3 None (From eo) tos body 30 (tlsConfig eo))")
    case None
    with three show ?thesis by (simp add: new_sessions_def nth_session_result_def)
  next
    case (Some e3)
    have "\<not> (fst (send_candidates net eo tos body others (Some e3) ?w3) = None \<and>
          map s_addr (new_sessions w (snd (send_candidates net eo tos body others (Some e3) ?w3))) =
            [?a1, ?a2, ?a3])"
    proof
      assume a: "fst (send_candidates net eo tos body others (Some e3) ?w3) = None \<and>
          map s_addr (new_sessions w (snd (send_candidates net eo tos body others (Some e3) ?w3))) =
            [?a1, ?a2, ?a3]"
      obtain w' where r: "send_candidates net eo tos body others (Some e3) ?w3 = (None, w')"
        using a by (cases "send_candidates net eo tos body others (Some e3) ?w3") simp
      from send_candidates_delivered [OF r] obtain pre s where
        "w' = ?w3\<lparr>sessions := sessions ?w3 @ pre @ [s]\<rparr>" by auto
      then have "length (new_sessions w w') = 3 + length pre + 1"
        by (simp add: new_sessions_def)
      moreover from a r have "length (map s_addr (new_sessions w w')) = 3" by simp
      ultimately show False by simp
    qed
    with three Some show ?thesis by (simp add: nth_session_result_def)
  qed
qed

lemma test_group_step:
  assumes res: "resolve dns host w = (Returned (Inr mxs), w1)"
    and test: "fst (test_candidates net eo tos mxs
                 (case mxAddrs w host of Some _ \<Rightarrow> err | None \<Rightarrow> None) w1) = (True, None)"
  shows "test_group dns net eo (host, tos) err w =
           (Returned None, snd (test_candidates net eo tos mxs
                 (case mxAddrs w host of Some _ \<Rightarrow> err | None \<Rightarrow> None) w1))"
    and "Prepare_groups dns net eo ((host, tos) # rest) err w =
           Prepare_groups dns net eo rest None (snd (test_group dns net eo (host, tos) err w))"
proof -
  obtain w2 where t: "test_candidates net eo tos mxs
      (case mxAddrs w host of Some _ \<Rightarrow> err | None \<Rightarrow> None) w1 = ((True, None), w2)"
    using test
    by (cases "test_candidates net eo tos mxs
                 (case mxAddrs w host of Some _ \<Rightarrow> err | None \<Rightarrow> None) w1") simp
  from res t show 1: "test_group dns net eo (host, tos) err w =
           (Returned None, snd (test_candidates net eo tos mxs
                 (case mxAddrs w host of Some _ \<Rightarrow> err | None \<Rightarrow> None) w1))"
    by (simp add: test_group_def)
  from res t show "Prepare_groups dns net eo ((host, tos) # rest) err w =
           Prepare_groups dns net eo rest None (snd (test_group dns net eo (host, tos) err w))"
    unfolding 1 by simp
qed

text \<open>
  Claim C6: let the candidate list that the resolution of a domain returns (from the
  cache or from a lookup) start with mx1, mx2, mx3.

  Start-up test: when the sessions against mx1 and mx2 fail and the session against mx3
  succeeds, the test of the group succeeds and \<open>Prepare\<close> goes on with the remaining
  groups; it has made exactly three sessions, against mx1, mx2 and mx3 on port 25 in
  this order, and none against a later candidate.

  Main loop: when the sessions against mx1 and mx2 fail, the next session is the one
  against mx3, and the group is reported as delivered with exactly these three sessions
  if and only if the session against mx3 succeeds.
\<close>

theorem failover_stops_at_first_success:
  "(resolve dns host w = (Returned (Inr (m1 # m2 # m3 # others)), w1) \<longrightarrow>
    nth_session_result net (length (sessions w)) (Host m1 @ '':25'') eo tos None (10 * Second) \<noteq> None \<longrightarrow>
    nth_session_result net (length (sessions w) + 1) (Host m2 @ '':25'') eo tos None (10 * Second) \<noteq> None \<longrightarrow>
    nth_session_result net (length (sessions w) + 2) (Host m3 @ '':25'') eo tos None (10 * Second) = None \<longrightarrow>
      fst (test_group dns net eo (host, tos) err w) = Returned None \<and>
      Prepare_groups dns net eo ((host, tos) # rest) err w =
        Prepare_groups dns net eo rest None (snd (test_group dns net eo (host, tos) err w)) \<and>
      map s_addr (new_sessions w (snd (test_group dns net eo (host, tos) err w))) =
        [Host m1 @ '':25'', Host m2 @ '':25'', Host m3 @ '':25''] \<and>
      map (\<lambda>s. s_result s = None) (new_sessions w (snd (test_group dns net eo (host, tos) err w))) =
        [False, False, True]) \<and>
   (mxAddrs w host = Some (m1 # m2 # m3 # others) \<longrightarrow> \<not> mxAddrsLock w \<longrightarrow>
    nth_session_result net (length (sessions w)) (Host m1 @ '':25'') eo tos body 30 \<noteq> None \<longrightarrow>
    nth_session_result net (length (sessions w) + 1) (Host m2 @ '':25'') eo tos body 30 \<noteq> None \<longrightarrow>
      take 3 (map s_addr (new_sessions w (snd (deliver_group net eo body (host, tos) w)))) =
        [Host m1 @ '':25'', Host m2 @ '':25'', Host m3 @ '':25''] \<and>
      ((fst (deliver_group net eo body (host, tos) w) = Returned None \<and>
        map s_addr (new_sessions w (snd (deliver_group net eo body (host, tos) w))) =
          [Host m1 @ '':25'', Host m2 @ '':25'', Host m3 @ '':25'']) =
       (nth_session_result net (length (sessions w) + 2) (Host m3 @ '':25'') eo tos body 30 = None)))"
proof (intro conjI impI)
  assume res: "resolve dns host w = (Returned (Inr (m1 # m2 # m3 # others)), w1)"
    and f1: "nth_session_result net (length (sessions w)) (Host m1 @ '':25'') eo tos None (10 * Second) \<noteq> None"
    and f2: "nth_session_result net (length (sessions w) + 1) (Host m2 @ '':25'') eo tos None (10 * Second) \<noteq> None"
    and s3: "nth_session_result net (length (sessions w) + 2) (Host m3 @ '':25'') eo tos None (10 * Second) = None"
  let ?e = "case mxAddrs w host of Some _ \<Rightarrow> err | None \<Rightarrow> None"
  let ?c = "test_candidates net eo tos (m1 # m2 # m3 # others) ?e w1"
  from res resolve_sessions [of dns host w] have n: "sessions w1 = sessions w" by simp
  have ns: "new_sessions w w' = new_sessions w1 w'" for w'
    by (simp add: new_sessions_def n)
  from f1 f2 s3 have r: "fst ?c = (True, None)"
    by (intro test_three(1)) (simp_all add: n)
  from test_group_step(1) [OF res r] have t: "test_group dns net eo (host, tos) err w = (Returned None, snd ?c)" .
  from t show "fst (test_group dns net eo (host, tos) err w) = Returned None" by simp
  from test_group_step(2) [OF res r]
  show "Prepare_groups dns net eo ((host, tos) # rest) err w =
        Prepare_groups dns net eo rest None (snd (test_group dns net eo (host, tos) err w))" .
  from f1 f2 s3 show "map s_addr (new_sessions w (snd (test_group dns net eo (host, tos) err w))) =
        [Host m1 @ '':25'', Host m2 @ '':25'', Host m3 @ '':25'']"
    unfolding t snd_conv ns by (intro test_three(2)) (simp_all add: n)
  from f1 f2 s3 show "map (\<lambda>s. s_result s = None) (new_sessions w (snd (test_group dns net eo (host, tos) err w))) =
        [False, False, True]"
    unfolding t snd_conv ns by (intro test_three(3)) (simp_all add: n)
next
  assume cache: "mxAddrs w host = Some (m1 # m2 # m3 # others)" and free: "\<not> mxAddrsLock w"
    and f1: "nth_session_result net (length (sessions w)) (Host m1 @ '':25'') eo tos body 30 \<noteq> None"
    and f2: "nth_session_result net (length (sessions w) + 1) (Host m2 @ '':25'') eo tos body 30 \<noteq> None"
  let ?c = "send_candidates net eo tos body (m1 # m2 # m3 # others) None w"
  from deliver_group_free [OF free cache, of net eo body tos]
  have d: "fst (deliver_group net eo body (host, tos) w) = Returned None \<longleftrightarrow> fst ?c = None"
    and w': "snd (deliver_group net eo body (host, tos) w) = snd ?c"
    by (simp_all split: prod.splits option.splits)
  from send_after_two_failures(1) [OF f1 f2]
  show "take 3 (map s_addr (new_sessions w (snd (deliver_group net eo body (host, tos) w)))) =
        [Host m1 @ '':25'', Host m2 @ '':25'', Host m3 @ '':25'']"
    unfolding w' .
  from send_after_two_failures(2) [OF f1 f2, of m3 others None]
  show "(fst (deliver_group net eo body (host, tos) w) = Returned None \<and>
        map s_addr (new_sessions w (snd (deliver_group net eo body (host, tos) w))) =
          [Host m1 @ '':25'', Host m2 @ '':25'', Host m3 @ '':25'']) =
       (nth_session_result net (length (sessions w) + 2) (Host m3 @ '':25'') eo tos body 30 = None)"
    unfolding w' d .
qed

lemma engine_x_groups:
  "group_by_host (To engine_x) = byHost engine_x"
  "engine_x\<lparr>byHost := byHost engine_x\<rparr> = engine_x"
  "range_map [''x.com''] (byHost engine_x) = [(''x.com'', [''a@x.com''])]"
  "hostport engine_x = []" "From engine_x = ''heka@h.org''" "tlsConfig engine_x = no_cert_check"
  "byHost engine_x ''x.com'' = Some [''a@x.com'']" "dom (byHost engine_x) = {''x.com''}"
proof -
  show "group_by_host (To engine_x) = byHost engine_x"
    by (rule ext) (simp add: engine_x_def group_by_host_def add_recipient_def host_of_def Index_def)
qed (simp_all add: engine_x_def range_map_def List.map_filter_simps)

lemma third_up_results:
  "nth_session_result third_up_net n ''mx1.x.com:25'' engine_x tos msg t \<noteq> None"
  "nth_session_result third_up_net n ''mx2.x.com:25'' engine_x tos msg t \<noteq> None"
  "nth_session_result third_up_net n ''mx3.x.com:25'' engine_x tos None (10 * Second) = None"
  "nth_session_result third_up_net n ''mx3.x.com:25'' engine_x tos msg 30 \<noteq> None"
proof -
  have "list_all (\<lambda>r. srv_rcpt good_server r = None) tos"
    by (simp add: good_server_def list_all_iff)
  then have "accepts_envelope good_server ''mx3.x.com:25'' None ''heka@h.org'' tos (10 * Second) no_cert_check"
    by (simp add: accepts_envelope_def good_server_def Second_def no_cert_check_def)
  then show "nth_session_result third_up_net n ''mx3.x.com:25'' engine_x tos None (10 * Second) = None"
    by (simp add: nth_session_result_def third_up_net_def engine_x_groups
          sendMail_accepted_envelope data_phase_def quit_phase_def)
       (simp add: good_server_def)
qed (simp_all add: nth_session_result_def third_up_net_def sendMail_def down_server_def
       good_server_def)

lemma test_candidates_world:
  "\<exists>new. snd (test_candidates net eo tos mxs err w) = w\<lparr>sessions := sessions w @ new\<rparr>"
proof (induction mxs arbitrary: err w)
  case Nil
  show ?case by (intro exI [of _ "[]"]) simp
next
  case (Cons m ms)
  obtain r w1 where c: "testMail net (Host m @ '':25'') None (From eo) tos (10 * Second) (tlsConfig eo) w = (r, w1)"
    by (cases "testMail net (Host m @ '':25'') None (From eo) tos (10 * Second) (tlsConfig eo) w")
  then obtain s where w1: "w1 = w\<lparr>sessions := sessions w @ [s]\<rparr>"
    by (auto simp add: testMail_def call_sendMail_eq)
  show ?case
  proof (cases r)
    case None
    with c w1 show ?thesis by (intro exI [of _ "[s]"]) simp
  next
    case (Some e)
    from Cons.IH [of "Some e" w1] obtain new where
      "snd (test_candidates net eo tos ms (Some e) w1) = w1\<lparr>sessions := sessions w1 @ new\<rparr>"
      by blast
    with c Some w1 show ?thesis by (intro exI [of _ "s # new"]) simp
  qed
qed

lemma probed_world_eq:
  "Prepare good_dns third_up_net [''x.com''] engine_x fresh_world =
     (Returned None, engine_x, probed_world)"
  "mxAddrs probed_world = [''x.com'' \<mapsto> [mx1_x, mx2_x, mx3_x]]"
  "\<not> mxAddrsLock probed_world"
  "map s_addr (sessions probed_world) = [''mx1.x.com:25'', ''mx2.x.com:25'', ''mx3.x.com:25'']"
  "map (\<lambda>s. s_result s = None) (sessions probed_world) = [False, False, True]"
  "lookups probed_world = [''x.com'']"
proof -
  let ?w1 = "fresh_world\<lparr>mxAddrs := [''x.com'' \<mapsto> [mx1_x, mx2_x, mx3_x]], lookups := [''x.com'']\<rparr>"
  let ?c = "test_candidates third_up_net engine_x [''a@x.com''] [mx1_x, mx2_x, mx3_x] None ?w1"
  have h: "Host mx1_x = ''mx1.x.com''" "Host mx2_x = ''mx2.x.com''" "Host mx3_x = ''mx3.x.com''"
    by (simp_all add: mx1_x_def mx2_x_def mx3_x_def)
  have r: "resolve good_dns ''x.com'' fresh_world = (Returned (Inr [mx1_x, mx2_x, mx3_x]), ?w1)"
    by (simp add: resolve_def Lock_def Unlock_def fresh_world_def good_dns_def)
  have m0: "mxAddrs fresh_world ''x.com'' = None"
    by (simp add: fresh_world_def)
  have e: "sessions ?w1 = []" "\<not> mxAddrsLock ?w1"
    by (simp_all add: fresh_world_def)
  note t = third_up_results [where tos = "[''a@x.com'']"]
  have three: "fst ?c = (True, None)"
    "map s_addr (new_sessions ?w1 (snd ?c)) = [''mx1.x.com:25'', ''mx2.x.com:25'', ''mx3.x.com:25'']"
    "map (\<lambda>s. s_result s = None) (new_sessions ?w1 (snd ?c)) = [False, False, True]"
    using test_three [of third_up_net ?w1 mx1_x engine_x "[''a@x.com'']" mx2_x mx3_x "[]" None] t
    by (simp_all add: h)
  from test_candidates_world [of third_up_net engine_x "[''a@x.com'']" "[mx1_x, mx2_x, mx3_x]" None ?w1]
  obtain new where w2: "snd ?c = ?w1\<lparr>sessions := sessions ?w1 @ new\<rparr>" by blast
  from m0 three(1) have "fst (test_candidates third_up_net engine_x [''a@x.com''] [mx1_x, mx2_x, mx3_x]
      (case mxAddrs fresh_world ''x.com'' of Some _ \<Rightarrow> None | None \<Rightarrow> None) ?w1) = (True, None)"
    by simp
  from test_group_step(1) [OF r this] m0
  have tg: "Prepare_groups good_dns third_up_net engine_x [(''x.com'', [''a@x.com''])] None fresh_world =
      (Returned None, snd ?c)"
    by (simp add: test_group_def del: Prepare_groups.simps test_candidates.simps)
  have P: "Prepare good_dns third_up_net [''x.com''] engine_x fresh_world =
      (Returned None, engine_x, snd ?c)"
    by (simp add: Prepare_def Let_def engine_x_groups tg
          del: Prepare_groups.simps test_candidates.simps)
  then have pw: "probed_world = snd ?c"
    by (simp add: probed_world_def good_dns_def)
  from P pw show "Prepare good_dns third_up_net [''x.com''] engine_x fresh_world =
     (Returned None, engine_x, probed_world)" by simp
  from three(2,3) show
    "map s_addr (sessions probed_world) = [''mx1.x.com:25'', ''mx2.x.com:25'', ''mx3.x.com:25'']"
    "map (\<lambda>s. s_result s = None) (sessions probed_world) = [False, False, True]"
    unfolding pw w2 by (simp_all add: new_sessions_def fresh_world_def)
  show "mxAddrs probed_world = [''x.com'' \<mapsto> [mx1_x, mx2_x, mx3_x]]"
    "\<not> mxAddrsLock probed_world" "lookups probed_world = [''x.com'']"
    unfolding pw w2 by (simp_all add: fresh_world_def)
qed

theorem failover_stops_at_first_success_witness:
  "resolve good_dns ''x.com'' fresh_world =
     (Returned (Inr [mx1_x, mx2_x, mx3_x]),
      fresh_world\<lparr>mxAddrs := [''x.com'' \<mapsto> [mx1_x, mx2_x, mx3_x]], lookups := [''x.com'']\<rparr>) \<and>
   nth_session_result third_up_net 0 ''mx1.x.com:25'' engine_x [''a@x.com''] None (10 * Second) \<noteq> None \<and>
   nth_session_result third_up_net 1 ''mx2.x.com:25'' engine_x [''a@x.com''] None (10 * Second) \<noteq> None \<and>
   nth_session_result third_up_net 2 ''mx3.x.com:25'' engine_x [''a@x.com''] None (10 * Second) = None \<and>
   fst (test_group good_dns third_up_net engine_x (''x.com'', [''a@x.com'']) None fresh_world) =
     Returned None \<and>
   map s_addr (new_sessions fresh_world
       (snd (test_group good_dns third_up_net engine_x (''x.com'', [''a@x.com'']) None fresh_world))) =
     [''mx1.x.com:25'', ''mx2.x.com:25'', ''mx3.x.com:25''] \<and>
   fst (Prepare good_dns third_up_net [''x.com''] engine_x fresh_world) = Returned None \<and>
   mxAddrs probed_world ''x.com'' = Some [mx1_x, mx2_x, mx3_x] \<and> \<not> mxAddrsLock probed_world \<and>
   length (sessions probed_world) = 3 \<and>
   nth_session_result third_up_net 3 ''mx1.x.com:25'' engine_x [''a@x.com''] (Some ''m'') 30 \<noteq> None \<and>
   nth_session_result third_up_net 4 ''mx2.x.com:25'' engine_x [''a@x.com''] (Some ''m'') 30 \<noteq> None \<and>
   nth_session_result third_up_net 5 ''mx3.x.com:25'' engine_x [''a@x.com''] (Some ''m'') 30 \<noteq> None \<and>
   take 3 (map s_addr (new_sessions probed_world
       (snd (deliver_group third_up_net engine_x (Some ''m'') (''x.com'', [''a@x.com'']) probed_world)))) =
     [''mx1.x.com:25'', ''mx2.x.com:25'', ''mx3.x.com:25''] \<and>
   \<not> (fst (deliver_group third_up_net engine_x (Some ''m'') (''x.com'', [''a@x.com'']) probed_world) =
        Returned None \<and>
      map s_addr (new_sessions probed_world
        (snd (deliver_group third_up_net engine_x (Some ''m'') (''x.com'', [''a@x.com'']) probed_world))) =
        [''mx1.x.com:25'', ''mx2.x.com:25'', ''mx3.x.com:25''])"
proof -
  let ?g = "(''x.com'', [''a@x.com''])"
  let ?tos = "[''a@x.com'']"
  have h: "Host mx1_x = ''mx1.x.com''" "Host mx2_x = ''mx2.x.com''" "Host mx3_x = ''mx3.x.com''"
    by (simp_all add: mx1_x_def mx2_x_def mx3_x_def)
  have r: "resolve good_dns ''x.com'' fresh_world =
      (Returned (Inr (mx1_x # mx2_x # mx3_x # [])),
       fresh_world\<lparr>mxAddrs := [''x.com'' \<mapsto> [mx1_x, mx2_x, mx3_x]], lookups := [''x.com'']\<rparr>)"
    by (simp add: resolve_def Lock_def Unlock_def fresh_world_def good_dns_def)
  have n0: "length (sessions fresh_world) = 0" by (simp add: fresh_world_def)
  have "length (map s_addr (sessions probed_world)) = 3"
    unfolding probed_world_eq(4) by simp
  then have n3: "length (sessions probed_world) = 3" by simp
  have c: "mxAddrs probed_world ''x.com'' = Some (mx1_x # mx2_x # mx3_x # [])"
    by (simp add: probed_world_eq(2))
  note t = third_up_results [where tos = ?tos]
  have p1: "nth_session_result third_up_net (length (sessions fresh_world)) (Host mx1_x @ '':25'')
              engine_x ?tos None (10 * Second) \<noteq> None"
    and p2: "nth_session_result third_up_net (length (sessions fresh_world) + 1) (Host mx2_x @ '':25'')
              engine_x ?tos None (10 * Second) \<noteq> None"
    and p3: "nth_session_result third_up_net (length (sessions fresh_world) + 2) (Host mx3_x @ '':25'')
              engine_x ?tos None (10 * Second) = None"
    and d1: "nth_session_result third_up_net (length (sessions probed_world)) (Host mx1_x @ '':25'')
              engine_x ?tos (Some ''m'') 30 \<noteq> None"
    and d2: "nth_session_result third_up_net (length (sessions probed_world) + 1) (Host mx2_x @ '':25'')
              engine_x ?tos (Some ''m'') 30 \<noteq> None"
    and d3: "nth_session_result third_up_net (length (sessions probed_world) + 2) (Host mx3_x @ '':25'')
              engine_x ?tos (Some ''m'') 30 \<noteq> None"
    by (simp_all add: h t)
  note start = failover_stops_at_first_success [THEN conjunct1, rule_format, OF r p1 p2 p3,
      where err = None and rest = "[]"]
  note main = failover_stops_at_first_success [THEN conjunct2, rule_format,
      OF c probed_world_eq(3) d1 d2]
  from main d3 have m2: "\<not> (fst (deliver_group third_up_net engine_x (Some ''m'') ?g probed_world) =
        Returned None \<and>
      map s_addr (new_sessions probed_world
        (snd (deliver_group third_up_net engine_x (Some ''m'') ?g probed_world))) =
        [''mx1.x.com:25'', ''mx2.x.com:25'', ''mx3.x.com:25''])"
    by (simp add: h)
  from main have m1: "take 3 (map s_addr (new_sessions probed_world
       (snd (deliver_group third_up_net engine_x (Some ''m'') ?g probed_world)))) =
     [''mx1.x.com:25'', ''mx2.x.com:25'', ''mx3.x.com:25'']"
    by (simp add: h)
  from start have s1: "fst (test_group good_dns third_up_net engine_x ?g None fresh_world) = Returned None"
    and s2: "map s_addr (new_sessions fresh_world
       (snd (test_group good_dns third_up_net engine_x ?g None fresh_world))) =
     [''mx1.x.com:25'', ''mx2.x.com:25'', ''mx3.x.com:25'']"
    by (simp_all add: h)
  have q: "nth_session_result third_up_net 0 ''mx1.x.com:25'' engine_x ?tos None (10 * Second) \<noteq> None"
    "nth_session_result third_up_net 1 ''mx2.x.com:25'' engine_x ?tos None (10 * Second) \<noteq> None"
    "nth_session_result third_up_net 2 ''mx3.x.com:25'' engine_x ?tos None (10 * Second) = None"
    "nth_session_result third_up_net 3 ''mx1.x.com:25'' engine_x ?tos (Some ''m'') 30 \<noteq> None"
    "nth_session_result third_up_net 4 ''mx2.x.com:25'' engine_x ?tos (Some ''m'') 30 \<noteq> None"
    "nth_session_result third_up_net 5 ''mx3.x.com:25'' engine_x ?tos (Some ''m'') 30 \<noteq> None"
    by (rule t)+
  have P: "fst (Prepare good_dns third_up_net [''x.com''] engine_x fresh_world) = Returned None"
    by (simp add: probed_world_eq(1))
  from r have r': "resolve good_dns ''x.com'' fresh_world =
     (Returned (Inr [mx1_x, mx2_x, mx3_x]),
      fresh_world\<lparr>mxAddrs := [''x.com'' \<mapsto> [mx1_x, mx2_x, mx3_x]], lookups := [''x.com'']\<rparr>)" .
  from c have c': "mxAddrs probed_world ''x.com'' = Some [mx1_x, mx2_x, mx3_x]" .
  from r' q s1 s2 P c' probed_world_eq(3) n3 m1 m2 show ?thesis by blast
qed

section \<open>Delivered groups\<close>

lemma range_map_member:
  "m k = Some v \<Longrightarrow> k \<in> set ks \<Longrightarrow> (k, v) \<in> set (range_map ks m)"
  by (induction ks) (auto simp add: range_map_def List.map_filter_simps split: option.splits)

lemma test_candidates_Nil_fails:
  "fst (test_candidates net eo tos mxs err w) = (True, e) \<Longrightarrow> mxs \<noteq> []"
  by (cases mxs) auto

lemma ops_keep_entry:
  "\<exists>xs. w' = do_ops dns net xs w \<Longrightarrow> mxAddrs w h = Some mxs \<Longrightarrow> mxAddrs w' h = Some mxs"
  by (auto simp add: do_ops_keeps_entry)

text \<open>
  A start-up test that succeeds has found, for every group it visited, a non-empty
  candidate list in the cache.
\<close>

lemma Prepare_groups_caches_candidates:
  "Prepare_groups dns net eo gs err w = (Returned None, w') \<Longrightarrow> (host, tos) \<in> set gs \<Longrightarrow>
   \<exists>mxs. mxAddrs w' host = Some mxs \<and> mxs \<noteq> []"
proof (induction gs arbitrary: err w)
  case Nil
  then show ?case by simp
next
  case (Cons g gs)
  obtain h t where g: "g = (h, t)" by (cases g)
  obtain out w1 where r: "resolve dns h w = (out, w1)" by (cases "resolve dns h w")
  from Cons.prems(1) g r obtain mxs where out: "out = Returned (Inr mxs)"
    by (cases out) (auto split: sum.splits)
  let ?e = "case mxAddrs w h of Some _ \<Rightarrow> err | None \<Rightarrow> None"
  obtain ok e' w2 where t: "test_candidates net eo t mxs ?e w1 = ((ok, e'), w2)"
    by (cases "test_candidates net eo t mxs ?e w1") auto
  from Cons.prems(1) g r out t have ok: "ok"
    by (cases ok) auto
  with Cons.prems(1) g r out t have rec: "Prepare_groups dns net eo gs e' w2 = (Returned None, w')"
    by simp
  show ?case
  proof (cases "(host, tos) = (h, t)")
    case True
    from r out have "mxAddrs w1 h = Some mxs" by (intro resolve_success(1)) simp
    moreover from test_candidates_ops [of net eo t mxs ?e w1 dns] t
    have "\<exists>xs. w2 = do_ops dns net xs w1" by simp
    ultimately have "mxAddrs w2 h = Some mxs" by (rule ops_keep_entry [rotated])
    moreover from Prepare_groups_ops [of dns net eo gs e' w2] rec
    have "\<exists>xs. w' = do_ops dns net xs w2" by simp
    ultimately have "mxAddrs w' h = Some mxs" by (rule ops_keep_entry [rotated])
    moreover from t ok have "mxs \<noteq> []" by (intro test_candidates_Nil_fails [of net eo t mxs ?e w1 e']) simp
    ultimately show ?thesis using True by simp
  next
    case False
    with Cons.prems(2) g have "(host, tos) \<in> set gs" by auto
    from Cons.IH [OF rec this] show ?thesis .
  qed
qed

text \<open>
  The candidate loop of the main loop, started on a non-empty list: every session it
  makes goes to the recipients of the group and to one of the candidates, and the number
  of sessions that succeed is one when the loop ends without error and zero otherwise.
\<close>

lemma send_candidates_count:
  "err \<noteq> None \<or> mxs \<noteq> [] \<Longrightarrow>
   \<exists>new. snd (send_candidates net eo tos body mxs err w) = w\<lparr>sessions := sessions w @ new\<rparr> \<and>
     list_all (\<lambda>s. s_to s = tos \<and> s_addr s \<in> (\<lambda>m. Host m @ '':25'') ` set mxs) new \<and>
     length (filter (\<lambda>s. s_result s = None) new) =
       (if fst (send_candidates net eo tos body mxs err w) = None then 1 else 0)"
proof (induction mxs arbitrary: err w)
  case Nil
  then show ?case by (intro exI [of _ "[]"]) auto
next
  case (Cons m ms)
  let ?a = "Host m @ '':25''"
  let ?r = "fst (sendMail (net (length (sessions w)) ?a) ?a None (From eo) tos body 30 (tlsConfig eo))"
  let ?s = "\<lparr>s_addr = ?a, s_auth = None, s_from = From eo, s_to = tos, s_msg = body,
             s_timeout = 30, s_tls = tlsConfig eo,
             s_steps = snd (sendMail (net (length (sessions w)) ?a) ?a None (From eo) tos body 30 (tlsConfig eo)),
             s_result = ?r\<rparr>"
  let ?w1 = "w\<lparr>sessions := sessions w @ [?s]\<rparr>"
  show ?case
  proof (cases ?r)
    case None
    then have "send_candidates net eo tos body (m # ms) err w = (None, ?w1)"
      by (simp add: call_sendMail_eq)
    with None show ?thesis by (intro exI [of _ "[?s]"]) simp
  next
    case (Some e)
    then have step: "send_candidates net eo tos body (m # ms) err w =
        send_candidates net eo tos body ms (Some e) ?w1"
      by (simp add: call_sendMail_eq)
    from Cons.IH [of "Some e" ?w1] obtain new where
      n: "snd (send_candidates net eo tos body ms (Some e) ?w1) = ?w1\<lparr>sessions := sessions ?w1 @ new\<rparr>"
      and a: "list_all (\<lambda>s. s_to s = tos \<and> s_addr s \<in> (\<lambda>m. Host m @ '':25'') ` set ms) new"
      and c: "length (filter (\<lambda>s. s_result s = None) new) =
         (if fst (send_candidates net eo tos body ms (Some e) ?w1) = None then 1 else 0)"
      by auto
    from a have a': "list_all (\<lambda>s. s_to s = tos \<and> s_addr s \<in> (\<lambda>m. Host m @ '':25'') ` set (m # ms)) new"
      by (auto simp add: list_all_iff)
    from n have n': "snd (send_candidates net eo tos body (m # ms) err w) =
        w\<lparr>sessions := sessions w @ (?s # new)\<rparr>"
      unfolding step by simp
    from Some c have c': "length (filter (\<lambda>s. s_result s = None) (?s # new)) =
         (if fst (send_candidates net eo tos body (m # ms) err w) = None then 1 else 0)"
      unfolding step by simp
    from a' have a'': "list_all (\<lambda>s. s_to s = tos \<and> s_addr s \<in> (\<lambda>m. Host m @ '':25'') ` set (m # ms)) (?s # new)"
      by simp
    from n' a'' c' show ?thesis by blast
  qed
qed

text \<open>
  Claim C1: take an engine without fixed relay whose \<open>Prepare\<close> has succeeded (the only
  way into the main loop), and any state of the process after that. Every group of the
  engine then has a non-empty candidate list in the cache. The delivery of the group
  makes sessions only to the recipients of the group and against its candidates, and
  the number of those sessions that succeed is one when the group is reported as
  delivered and zero when it is not: a group is reported as delivered only with exactly
  one successful session.
\<close>

theorem delivered_group_has_one_successful_session:
  assumes prep: "Prepare dns net ks eo w0 = (Returned None, eo1, w1)"
    and mode: "hostport eo = []"
    and keys: "dom (group_by_host (To eo)) \<subseteq> set ks"
    and later: "w2 = do_ops dns net xs w1"
    and group: "byHost eo1 host = Some tos"
  shows "\<exists>mxs. mxAddrs w2 host = Some mxs \<and> mxs \<noteq> [] \<and>
           list_all (\<lambda>s. s_to s = tos \<and> s_addr s \<in> (\<lambda>m. Host m @ '':25'') ` set mxs)
             (new_sessions w2 (snd (deliver_group net eo1 body (host, tos) w2))) \<and>
           length (filter (\<lambda>s. s_result s = None)
             (new_sessions w2 (snd (deliver_group net eo1 body (host, tos) w2)))) =
             (if fst (deliver_group net eo1 body (host, tos) w2) = Returned None then 1 else 0)"
proof -
  let ?eo = "eo\<lparr>byHost := group_by_host (To eo)\<rparr>"
  from prep mode have eo1: "eo1 = ?eo"
    and pg: "Prepare_groups dns net ?eo (range_map ks (group_by_host (To eo))) None w0 = (Returned None, w1)"
    by (auto simp add: Prepare_def Let_def split: prod.splits)
  from group eo1 have g: "group_by_host (To eo) host = Some tos" by simp
  with keys have "host \<in> set ks" by auto
  with g have "(host, tos) \<in> set (range_map ks (group_by_host (To eo)))"
    by (intro range_map_member)
  from Prepare_groups_caches_candidates [OF pg this] obtain mxs where
    c1: "mxAddrs w1 host = Some mxs" and ne: "mxs \<noteq> []" by blast
  from c1 later have c2: "mxAddrs w2 host = Some mxs" by (simp add: do_ops_keeps_entry)
  let ?d = "deliver_group net eo1 body (host, tos) w2"
  have "list_all (\<lambda>s. s_to s = tos \<and> s_addr s \<in> (\<lambda>m. Host m @ '':25'') ` set mxs) (new_sessions w2 (snd ?d)) \<and>
        length (filter (\<lambda>s. s_result s = None) (new_sessions w2 (snd ?d))) =
          (if fst ?d = Returned None then 1 else 0)"
  proof (cases "mxAddrsLock w2")
    case True
    then show ?thesis by (simp add: deliver_group_locked new_sessions_def)
  next
    case False
    let ?c = "send_candidates net eo1 tos body mxs None w2"
    from deliver_group_free [OF False c2, of net eo1 body tos]
    have d: "fst ?d = Returned None \<longleftrightarrow> fst ?c = None" and w': "snd ?d = snd ?c"
      by (simp_all split: prod.splits option.splits)
    from ne send_candidates_count [of None mxs net eo1 tos body w2] obtain new where
      "snd ?c = w2\<lparr>sessions := sessions w2 @ new\<rparr>"
      "list_all (\<lambda>s. s_to s = tos \<and> s_addr s \<in> (\<lambda>m. Host m @ '':25'') ` set mxs) new"
      "length (filter (\<lambda>s. s_result s = None) new) = (if fst ?c = None then 1 else 0)"
      by auto
    then show ?thesis unfolding d w' by simp
  qed
  with c2 ne show ?thesis by blast
qed

lemma third_up_main_loop_sessions:
  "fst (sendMail (third_up_net n ''mx1.x.com:25'') ''mx1.x.com:25'' None ''heka@h.org'' tos body 30
          no_cert_check) = Some (Fail ''connection refused'')"
  "fst (sendMail (third_up_net n ''mx2.x.com:25'') ''mx2.x.com:25'' None ''heka@h.org'' tos body 30
          no_cert_check) = Some (Fail ''connection refused'')"
  "fst (sendMail (third_up_net n ''mx3.x.com:25'') ''mx3.x.com:25'' None ''heka@h.org'' tos body 30
          no_cert_check) = Some (Fail ''i/o timeout'')"
  by (simp_all add: third_up_net_def sendMail_def down_server_def good_server_def)

lemma probed_world_delivery:
  "fst (deliver_group third_up_net engine_x (Some ''m'') (''x.com'', [''a@x.com'']) probed_world) =
     Returned (Some (SendError ''heka@h.org'' [''a@x.com''] [mx1_x, mx2_x, mx3_x]
                       (Fail ''i/o timeout'')))"
proof -
  have h: "Host mx1_x = ''mx1.x.com''" "Host mx2_x = ''mx2.x.com''" "Host mx3_x = ''mx3.x.com''"
    by (simp_all add: mx1_x_def mx2_x_def mx3_x_def)
  have c: "mxAddrs probed_world ''x.com'' = Some [mx1_x, mx2_x, mx3_x]"
    by (simp add: probed_world_eq(2))
  have "fst (send_candidates third_up_net engine_x [''a@x.com''] (Some ''m'') [mx1_x, mx2_x, mx3_x]
               None probed_world) = Some (Fail ''i/o timeout'')"
    by (simp add: call_sendMail_eq h engine_x_groups third_up_main_loop_sessions)
  with deliver_group_free [OF probed_world_eq(3) c, of third_up_net engine_x "Some ''m''" "[''a@x.com'']"]
  show ?thesis
    by (simp add: engine_x_groups split: prod.splits option.splits)
qed

theorem delivered_group_has_one_successful_session_witness:
  "Prepare good_dns third_up_net [''x.com''] engine_x fresh_world =
     (Returned None, engine_x, probed_world) \<and>
   hostport engine_x = [] \<and>
   dom (group_by_host (To engine_x)) \<subseteq> set [''x.com''] \<and>
   probed_world = do_ops good_dns third_up_net [] probed_world \<and>
   byHost engine_x ''x.com'' = Some [''a@x.com''] \<and>
   mxAddrs probed_world ''x.com'' = Some [mx1_x, mx2_x, mx3_x] \<and>
   fst (deliver_group third_up_net engine_x (Some ''m'') (''x.com'', [''a@x.com'']) probed_world) =
     Returned (Some (SendError ''heka@h.org'' [''a@x.com''] [mx1_x, mx2_x, mx3_x]
                       (Fail ''i/o timeout''))) \<and>
   length (filter (\<lambda>s. s_result s = None)
     (new_sessions probed_world
        (snd (deliver_group third_up_net engine_x (Some ''m'') (''x.com'', [''a@x.com'']) probed_world)))) = 0"
proof -
  have k: "dom (group_by_host (To engine_x)) \<subseteq> set [''x.com'']"
    by (simp add: engine_x_groups)
  have l: "probed_world = do_ops good_dns third_up_net [] probed_world"
    by simp
  have c: "mxAddrs probed_world ''x.com'' = Some [mx1_x, mx2_x, mx3_x]"
    by (simp add: probed_world_eq(2))
  from delivered_group_has_one_successful_session
    [OF probed_world_eq(1) engine_x_groups(4) k l engine_x_groups(7), of "Some ''m''"]
  have "length (filter (\<lambda>s. s_result s = None)
     (new_sessions probed_world
        (snd (deliver_group third_up_net engine_x (Some ''m'') (''x.com'', [''a@x.com'']) probed_world)))) = 0"
    by (auto simp add: probed_world_delivery)
  with probed_world_eq(1) engine_x_groups(4,7) k l c probed_world_delivery show ?thesis
    by blast
qed

text \<open>
  The method itself does not look at the length of the candidate list: started by hand
  on a cache without candidates for a group, it makes no session and returns \<open>nil\<close>.
  \<open>Prepare\<close> rejects an engine with such a group, so that no main loop meets this state.
\<close>

lemma empty_candidate_list_is_not_checked:
  "fst (Prepare empty_dns good_net [''x.com''] engine_x fresh_world) =
     Returned (Some (TestSendError ''heka@h.org'' [''a@x.com''] [] None)) \<and>
   snd (Prepare empty_dns good_net [''x.com''] engine_x fresh_world) =
     (engine_x, fresh_world\<lparr>mxAddrs := [''x.com'' \<mapsto> []], lookups := [''x.com'']\<rparr>) \<and>
   EmailOutput_sendMail good_net [''x.com''] engine_x (Some ''m'')
       (fresh_world\<lparr>mxAddrs := [''x.com'' \<mapsto> []], lookups := [''x.com'']\<rparr>) =
     (Returned None, fresh_world\<lparr>mxAddrs := [''x.com'' \<mapsto> []], lookups := [''x.com'']\<rparr>) \<and>
   EmailOutput_sendMail good_net [''x.com''] engine_x (Some ''m'') fresh_world =
     (Returned None, fresh_world) \<and>
   sessions fresh_world = []"
proof -
  have g: "group_by_host (To engine_x) = byHost engine_x"
    by (rule ext) (simp add: engine_x_def group_by_host_def add_recipient_def host_of_def Index_def)
  have e: "engine_x\<lparr>byHost := byHost engine_x\<rparr> = engine_x"
    by simp
  have r: "range_map [''x.com''] (byHost engine_x) = [(''x.com'', [''a@x.com''])]"
    by (simp add: range_map_def engine_x_def List.map_filter_simps)
  have p: "Prepare empty_dns good_net [''x.com''] engine_x fresh_world =
     (Returned (Some (TestSendError ''heka@h.org'' [''a@x.com''] [] None)), engine_x,
      fresh_world\<lparr>mxAddrs := [''x.com'' \<mapsto> []], lookups := [''x.com'']\<rparr>)"
    unfolding Prepare_def g e Let_def r
    by (simp add: resolve_def Lock_def Unlock_def empty_dns_def fresh_world_def engine_x_def)
  have s1: "EmailOutput_sendMail good_net [''x.com''] engine_x (Some ''m'')
       (fresh_world\<lparr>mxAddrs := [''x.com'' \<mapsto> []], lookups := [''x.com'']\<rparr>) =
     (Returned None, fresh_world\<lparr>mxAddrs := [''x.com'' \<mapsto> []], lookups := [''x.com'']\<rparr>)"
    unfolding EmailOutput_sendMail_def r
    by (simp add: read_cache_def Lock_def Unlock_def fresh_world_def engine_x_def)
  have s2: "EmailOutput_sendMail good_net [''x.com''] engine_x (Some ''m'') fresh_world =
     (Returned None, fresh_world)"
    unfolding EmailOutput_sendMail_def r
    by (simp add: read_cache_def Lock_def Unlock_def fresh_world_def engine_x_def)
  show ?thesis by (simp add: p s1 s2) (simp add: fresh_world_def)
qed


section \<open>The lock leak\<close>

text \<open>
  Claim C5 does not hold of the code. The resolution of x.com succeeds and is cached.
  Then the lookup of another domain fails, and its error return leaves the mutex locked.
  The cache still holds the list of x.com, but the next resolution of x.com does not
  return it: it blocks in \<open>Lock\<close>, and so does the read of the main loop.
\<close>

theorem resolution_blocks_after_failed_lookup:
  "resolve x_only_dns ''x.com'' fresh_world =
     (Returned (Inr [mx1_x, mx2_x, mx3_x]),
      fresh_world\<lparr>mxAddrs := [''x.com'' \<mapsto> [mx1_x, mx2_x, mx3_x]], lookups := [''x.com'']\<rparr>) \<and>
   resolve x_only_dns ''y.com''
      (fresh_world\<lparr>mxAddrs := [''x.com'' \<mapsto> [mx1_x, mx2_x, mx3_x]], lookups := [''x.com'']\<rparr>) =
     (Returned (Inl (LookupError ''y.com'' (Fail ''no such host''))),
      fresh_world\<lparr>mxAddrs := [''x.com'' \<mapsto> [mx1_x, mx2_x, mx3_x]], mxAddrsLock := True,
                    lookups := [''x.com'', ''y.com'']\<rparr>) \<and>
   mxAddrs (fresh_world\<lparr>mxAddrs := [''x.com'' \<mapsto> [mx1_x, mx2_x, mx3_x]], mxAddrsLock := True,
                    lookups := [''x.com'', ''y.com'']\<rparr>) ''x.com'' = Some [mx1_x, mx2_x, mx3_x] \<and>
   fst (resolve x_only_dns ''x.com''
      (fresh_world\<lparr>mxAddrs := [''x.com'' \<mapsto> [mx1_x, mx2_x, mx3_x]], mxAddrsLock := True,
                    lookups := [''x.com'', ''y.com'']\<rparr>)) = Blocked \<and>
   fst (read_cache ''x.com''
      (fresh_world\<lparr>mxAddrs := [''x.com'' \<mapsto> [mx1_x, mx2_x, mx3_x]], mxAddrsLock := True,
                    lookups := [''x.com'', ''y.com'']\<rparr>)) = Blocked"
  by (simp add: resolve_def read_cache_def Lock_def Unlock_def fresh_world_def x_only_dns_def)

text \<open>
  Claim C3 does not hold of the code. The lookup for x.com fails: \<open>Prepare\<close> returns
  the error of line 102 while it still holds the mutex. From then on every operation on
  the cache blocks in \<open>Lock\<close>: the \<open>Prepare\<close> of another engine for the different
  domain y.com, and the delivery of that engine.
\<close>

theorem failed_lookup_leaves_mutex_locked:
  "fst (Prepare flaky_dns good_net [''x.com''] engine_x fresh_world) =
     Returned (Some (LookupError ''x.com'' (Fail ''no such host''))) \<and>
   mxAddrsLock (snd (snd (Prepare flaky_dns good_net [''x.com''] engine_x fresh_world))) \<and>
   fst (Prepare flaky_dns good_net [''y.com''] engine_y
          (snd (snd (Prepare flaky_dns good_net [''x.com''] engine_x fresh_world)))) = Blocked \<and>
   fst (EmailOutput_sendMail good_net [''y.com''] engine_y (Some ''m'')
          (snd (snd (Prepare flaky_dns good_net [''x.com''] engine_x fresh_world)))) = Blocked"
proof -
  have g: "range_map [''x.com''] (group_by_host (To engine_x)) = [(''x.com'', [''a@x.com''])]"
    "range_map [''y.com''] (group_by_host (To engine_y)) = [(''y.com'', [''b@y.com''])]"
    "range_map [''y.com''] (byHost engine_y) = [(''y.com'', [''b@y.com''])]"
    by (simp_all add: range_map_def engine_x_def engine_y_def List.map_filter_simps group_by_host_def
          add_recipient_def host_of_def Index_def)
  have r: "resolve flaky_dns ''x.com'' fresh_world =
      (Returned (Inl (LookupError ''x.com'' (Fail ''no such host''))),
       fresh_world\<lparr>mxAddrsLock := True, lookups := [''x.com'']\<rparr>)"
    by (simp add: resolve_def Lock_def fresh_world_def flaky_dns_def)
  have p: "Prepare flaky_dns good_net [''x.com''] engine_x fresh_world =
      (Returned (Some (LookupError ''x.com'' (Fail ''no such host''))),
       engine_x\<lparr>byHost := group_by_host (To engine_x)\<rparr>,
       fresh_world\<lparr>mxAddrsLock := True, lookups := [''x.com'']\<rparr>)"
    using g(1) r by (simp add: Prepare_def Let_def engine_x_def)
  have l: "mxAddrsLock (fresh_world\<lparr>mxAddrsLock := True, lookups := [''x.com'']\<rparr>)"
    by simp
  show ?thesis
    unfolding p
    using g(2,3) resolve_locked [OF l] read_cache_locked [OF l]
    by (simp add: Prepare_def Let_def EmailOutput_sendMail_def engine_y_def)
qed

text \<open>
  Claim C4 does not hold of the code. The failed resolution of x.com leaves the cache as
  it was, without entry for x.com; but a later resolution of x.com, at a time when the
  resolver would answer, blocks on the mutex that the failed one left locked, and performs
  no lookup.
\<close>

theorem retry_after_failed_lookup_blocks:
  "resolve flaky_dns ''x.com'' fresh_world =
     (Returned (Inl (LookupError ''x.com'' (Fail ''no such host''))),
      fresh_world\<lparr>mxAddrsLock := True, lookups := [''x.com'']\<rparr>) \<and>
   mxAddrs (fresh_world\<lparr>mxAddrsLock := True, lookups := [''x.com'']\<rparr>) = mxAddrs fresh_world \<and>
   flaky_dns (length (lookups (fresh_world\<lparr>mxAddrsLock := True, lookups := [''x.com'']\<rparr>))) ''x.com'' =
     Inr [mx1_x] \<and>
   resolve flaky_dns ''x.com'' (fresh_world\<lparr>mxAddrsLock := True, lookups := [''x.com'']\<rparr>) =
     (Blocked, fresh_world\<lparr>mxAddrsLock := True, lookups := [''x.com'']\<rparr>) \<and>
   lookups (snd (resolve flaky_dns ''x.com'' (fresh_world\<lparr>mxAddrsLock := True, lookups := [''x.com'']\<rparr>))) =
     [''x.com'']"
  by (simp add: resolve_def Lock_def fresh_world_def flaky_dns_def)

end
